theory Spec2Isabelle
  imports Main "HOL-Library.Sublist" "HOL-Library.AList"
begin

section \<open>Python values\<close>

text \<open>
  Shallow embedding of \<^verbatim>\<open>torchdynamo/symbolic_convert.py\<close>: the symbolic tracer
  \<^verbatim>\<open>InstructionTracer\<close> and the two entry points \<^verbatim>\<open>convert_frame_assert\<close> and
  \<^verbatim>\<open>convert_frame\<close>.

  Exceptions are values: every \<^verbatim>\<open>raise\<close>, failed \<^verbatim>\<open>assert\<close>, failed dictionary
  lookup and pop from an empty list of the source is an \<open>Inl\<close> branch of the model.
  Assertions are taken as enabled (no \<^verbatim>\<open>python -O\<close>).
\<close>

datatype error =
    NotImplementedError string
  | AssertionError
  | KeyError
  | IndexError
  | AttributeError
  | TypeError
  | ValueError
  | TraceError

definition bindE :: "error + 'a \<Rightarrow> ('a \<Rightarrow> error + 'b) \<Rightarrow> error + 'b" where
  "bindE m f = (case m of Inl e \<Rightarrow> Inl e | Inr x \<Rightarrow> f x)"

fun mapE :: "('a \<Rightarrow> error + 'b) \<Rightarrow> 'a list \<Rightarrow> error + 'b list" where
  "mapE f [] = Inr []"
| "mapE f (x # xs) = bindE (f x) (\<lambda>y. bindE (mapE f xs) (\<lambda>ys. Inr (y # ys)))"

text \<open>\<^verbatim>\<open>unimplemented(name)\<close>: bumps a statistics counter (not modelled) and raises.\<close>

definition unimplemented :: "string \<Rightarrow> error + 'a" where
  "unimplemented name = Inl (NotImplementedError name)"

definition py_assert :: "bool \<Rightarrow> error + unit" where
  "py_assert b = (if b then Inr () else Inl AssertionError)"

text \<open>
  Literals, as they occur in \<^verbatim>\<open>co_consts\<close> and as decoded operands (\<^verbatim>\<open>inst.argval\<close>):
  a name is a \<open>CStr\<close>, a count is a \<open>CInt\<close>.
\<close>

datatype const = CNone | CBool bool | CInt int | CStr string | CTuple "const list"

text \<open>Python truth value, as \<^verbatim>\<open>not value.value\<close> tests it.\<close>

fun truthy :: "const \<Rightarrow> bool" where
  "truthy CNone = False"
| "truthy (CBool b) = b"
| "truthy (CInt i) = (i \<noteq> 0)"
| "truthy (CStr s) = (s \<noteq> [])"
| "truthy (CTuple xs) = (xs \<noteq> [])"

text \<open>
  Python compares and hashes \<^verbatim>\<open>True\<close> as \<^verbatim>\<open>1\<close> and \<^verbatim>\<open>False\<close> as \<^verbatim>\<open>0\<close>; two literals
  are the same dictionary key (and \<^verbatim>\<open>==\<close>) exactly when their normal forms agree.
\<close>

fun key_norm :: "const \<Rightarrow> const" where
  "key_norm (CBool b) = CInt (if b then 1 else 0)"
| "key_norm (CTuple xs) = CTuple (map key_norm xs)"
| "key_norm c = c"

text \<open>An operand used as a count (\<^verbatim>\<open>range(n)\<close>): an int, or a bool, which is an int.\<close>

fun as_int :: "const \<Rightarrow> error + int" where
  "as_int (CInt i) = Inr i"
| "as_int (CBool b) = Inr (if b then 1 else 0)"
| "as_int c = Inl TypeError"

text \<open>\<^verbatim>\<open>len(x)\<close> of a literal, and the items \<^verbatim>\<open>zip\<close> iterates over.\<close>

fun const_items :: "const \<Rightarrow> error + const list" where
  "const_items (CTuple xs) = Inr xs"
| "const_items (CStr s) = Inr (map (\<lambda>c. CStr [c]) s)"
| "const_items c = Inl TypeError"

text \<open>
  Concrete values bound in the frame's tables. \<open>PModule c attrs\<close> is a
  \<^verbatim>\<open>torch.nn.Module\<close> of class \<open>c\<close>; \<open>PObj t attrs\<close> is any other object, of type
  \<open>t\<close>; \<open>PForward\<close> is the bound method \<^verbatim>\<open>gm.forward\<close> of a compiled graph.
\<close>

datatype pyval =
    PNone
  | PBool bool
  | PStr string
  | PTensor nat
  | PModule string "(string \<times> pyval) list"
  | PObj string "(string \<times> pyval) list"
  | PClass string
  | PForward

fun py_type_name :: "pyval \<Rightarrow> string" where
  "py_type_name PNone = ''NoneType''"
| "py_type_name (PBool b) = ''bool''"
| "py_type_name (PStr s) = ''str''"
| "py_type_name (PTensor t) = ''Tensor''"
| "py_type_name (PModule c attrs) = c"
| "py_type_name (PObj t attrs) = t"
| "py_type_name (PClass c) = ''type''"
| "py_type_name PForward = ''method''"

text \<open>\<^verbatim>\<open>value.__class__\<close>.\<close>

definition py_class :: "pyval \<Rightarrow> pyval" where
  "py_class v = PClass (py_type_name v)"

text \<open>\<^verbatim>\<open>getattr(obj, name)\<close>; \<open>None\<close> is the AttributeError.\<close>

fun py_getattr :: "pyval \<Rightarrow> string \<Rightarrow> pyval option" where
  "py_getattr (PModule c attrs) name = map_of attrs name"
| "py_getattr (PObj t attrs) name = map_of attrs name"
| "py_getattr v name = None"

text \<open>
  \<^verbatim>\<open>callable(obj)\<close>: modules of \<^verbatim>\<open>torch.nn\<close>, classes and bound methods are
  callable; any other object is callable when it has the attribute \<^verbatim>\<open>__call__\<close>.
\<close>

fun py_callable :: "pyval \<Rightarrow> bool" where
  "py_callable (PModule c attrs) = True"
| "py_callable (PObj t attrs) = (map_of attrs ''__call__'' \<noteq> None)"
| "py_callable (PClass c) = True"
| "py_callable PForward = True"
| "py_callable v = False"

text \<open>\<^verbatim>\<open>getattr(obj, name, None)\<close>.\<close>

definition getattr_or_None :: "pyval \<Rightarrow> string \<Rightarrow> pyval" where
  "getattr_or_None obj name = (case py_getattr obj name of None \<Rightarrow> PNone | Some v \<Rightarrow> v)"

text \<open>Decimal rendering of a counter, as an f-string prints it.\<close>

fun str_nat :: "nat \<Rightarrow> string" where
  "str_nat n = (if n < 10 then [''0123456789'' ! n]
                else str_nat (n div 10) @ [''0123456789'' ! (n mod 10)])"

declare str_nat.simps [simp del]

text \<open>\<^verbatim>\<open>keys.split(".")\<close>.\<close>

fun split_dot :: "string \<Rightarrow> string list" where
  "split_dot [] = [[]]"
| "split_dot (c # cs) =
     (if c = CHR ''.'' then [] # split_dot cs
      else (case split_dot cs of [] \<Rightarrow> [[c]] | w # ws \<Rightarrow> (c # w) # ws))"

text \<open>\<^verbatim>\<open>names.index(name)\<close>, once \<^verbatim>\<open>name in names\<close> is known.\<close>

fun index_of :: "string \<Rightarrow> string list \<Rightarrow> nat" where
  "index_of x [] = 0"
| "index_of x (y # ys) = (if x = y then 0 else Suc (index_of x ys))"

text \<open>
  Python slices \<^verbatim>\<open>xs[:i]\<close> and \<^verbatim>\<open>xs[i:]\<close>: a negative bound counts from the end, and
  every bound is clipped to the list.
\<close>

definition slice_bound :: "int \<Rightarrow> nat \<Rightarrow> nat" where
  "slice_bound i n = (if i < 0 then nat (max 0 (int n + i)) else min (nat i) n)"

definition slice_to :: "int \<Rightarrow> 'a list \<Rightarrow> 'a list" where
  "slice_to i xs = take (slice_bound i (length xs)) xs"

definition slice_from :: "int \<Rightarrow> 'a list \<Rightarrow> 'a list" where
  "slice_from i xs = drop (slice_bound i (length xs)) xs"

section \<open>Guards and symbolic values\<close>

datatype GuardSource = LOCAL | GLOBAL

datatype GuardRequirement = TYPE_MATCH | VALUE_MATCH | FUNCTION_MATCH

datatype Guard = Guard string GuardSource GuardRequirement

datatype TracingSupported = UNKNOWN | YES | NO

text \<open>
  Modelled from the spec: the classes of \<^verbatim>\<open>variable_tracker.py\<close>, which is not among
  the sources. Every variant carries a support state and a guard set (spec section 3).
  \<open>ListVariable\<close> stands for the spec's single \<^verbatim>\<open>Container\<close> variant (list, tuple,
  slice), told apart by its class name. \<open>NoneValue\<close> is not a tracked value: it is
  the bare \<^verbatim>\<open>None\<close> that \<^verbatim>\<open>LOAD_METHOD\<close> pushes on the stack.
\<close>

datatype symval =
    ConstantVariable const TracingSupported "Guard set"
  | TensorVariable nat TracingSupported "Guard set"
  | NNModuleVariable string TracingSupported "Guard set"
  | GetAttrVariable symval string TracingSupported "Guard set"
  | ListVariable string "symval list" TracingSupported "Guard set"
  | ConstDictVariable "(const \<times> symval) list" TracingSupported "Guard set"
  | AllowedFunctionOrModuleVariable pyval TracingSupported "Guard set"
  | NoneValue

text \<open>\<^verbatim>\<open>type(value).__name__\<close>.\<close>

fun type_name :: "symval \<Rightarrow> string" where
  "type_name (ConstantVariable c s g) = ''ConstantVariable''"
| "type_name (TensorVariable p s g) = ''TensorVariable''"
| "type_name (NNModuleVariable k s g) = ''NNModuleVariable''"
| "type_name (GetAttrVariable obj name s g) = ''GetAttrVariable''"
| "type_name (ListVariable cls items s g) = cls"
| "type_name (ConstDictVariable items s g) = ''ConstDictVariable''"
| "type_name (AllowedFunctionOrModuleVariable v s g) = ''AllowedFunctionOrModuleVariable''"
| "type_name NoneValue = ''NoneType''"

text \<open>\<^verbatim>\<open>value.guards\<close> and \<^verbatim>\<open>value.state\<close>; the bare \<^verbatim>\<open>None\<close> has neither attribute.\<close>

fun guards_of :: "symval \<Rightarrow> error + Guard set" where
  "guards_of (ConstantVariable c s g) = Inr g"
| "guards_of (TensorVariable p s g) = Inr g"
| "guards_of (NNModuleVariable k s g) = Inr g"
| "guards_of (GetAttrVariable obj name s g) = Inr g"
| "guards_of (ListVariable cls items s g) = Inr g"
| "guards_of (ConstDictVariable items s g) = Inr g"
| "guards_of (AllowedFunctionOrModuleVariable v s g) = Inr g"
| "guards_of NoneValue = Inl AttributeError"

fun state_of :: "symval \<Rightarrow> error + TracingSupported" where
  "state_of (ConstantVariable c s g) = Inr s"
| "state_of (TensorVariable p s g) = Inr s"
| "state_of (NNModuleVariable k s g) = Inr s"
| "state_of (GetAttrVariable obj name s g) = Inr s"
| "state_of (ListVariable cls items s g) = Inr s"
| "state_of (ConstDictVariable items s g) = Inr s"
| "state_of (AllowedFunctionOrModuleVariable v s g) = Inr s"
| "state_of NoneValue = Inl AttributeError"

text \<open>
  Modelled from the spec: the state a \<^verbatim>\<open>VariableTracker\<close> gets when its constructor
  is given none, and its guard set when given none (spec 4.4: a literal is wrapped
  "with unknown support state"; a value that has met no binding has no guard).
\<close>

definition default_state :: TracingSupported where
  "default_state = UNKNOWN"

definition default_guards :: "Guard set" where
  "default_guards = {}"

text \<open>
  Python dictionaries keep insertion order: a store to a present key replaces the value
  in place, a store to a new key appends.
\<close>

fun dict_set :: "const \<Rightarrow> 'v \<Rightarrow> (const \<times> 'v) list \<Rightarrow> (const \<times> 'v) list" where
  "dict_set k v [] = [(k, v)]"
| "dict_set k v (p # ps) =
     (if key_norm (fst p) = key_norm k then (fst p, v) # ps else p # dict_set k v ps)"

text \<open>\<^verbatim>\<open>dict(zip(keys, values))\<close>.\<close>

definition dict_zip :: "const list \<Rightarrow> 'v list \<Rightarrow> (const \<times> 'v) list" where
  "dict_zip ks vs = fold (\<lambda>(k, v) d. dict_set k v d) (zip ks vs) []"

section \<open>The dataflow graph\<close>

text \<open>
  \<^verbatim>\<open>torch.fx\<close> is an external library. Its graph is a list of nodes; a node is an object
  with an identity, here \<open>n_id\<close>, the number of nodes created before it (no node is ever
  removed). A proxy is a reference to its node.
\<close>

datatype node_target = TName string | TValue pyval | TOperator string

datatype garg = GNode nat | GConst const | GList "garg list"

record node =
  n_id :: nat
  n_op :: string
  n_target :: node_target
  n_args :: "garg list"
  n_kwargs :: "(const \<times> garg) list"

section \<open>Instructions, code objects, frames\<close>

text \<open>
  An instruction of the decoded stream. The source finds the position of a jump target
  by the identity of the target instruction (\<^verbatim>\<open>indexof[id(inst.target)]\<close>); here an
  instruction is identified with its position in the stream the tracer was created with,
  and \<open>target\<close> holds that position (\<open>None\<close>: no target).
\<close>

record Instruction =
  opname :: string
  arg :: "int option"
  argval :: const
  target :: "nat option"

text \<open>
  Modelled from the spec: \<^verbatim>\<open>create_instruction\<close> of \<^verbatim>\<open>bytecode_transformation.py\<close>,
  which is not among the sources: a new instruction with no jump target.
\<close>

definition create_instruction :: "string \<Rightarrow> int option \<Rightarrow> const \<Rightarrow> Instruction" where
  "create_instruction name a av = \<lparr>opname = name, arg = a, argval = av, target = None\<rparr>"

record code_options =
  co_names :: "string list"
  co_varnames :: "string list"
  co_stacksize :: nat

record code =
  co_filename :: string
  co_instructions :: "Instruction list"
  co_options :: code_options

record frame =
  f_code :: code
  f_locals :: "string \<rightharpoonup> pyval"
  f_globals :: "string \<rightharpoonup> pyval"
  f_builtins :: "string \<rightharpoonup> pyval"

text \<open>
  Modelled from the spec: \<^verbatim>\<open>GuardedCode\<close> of \<^verbatim>\<open>guards.py\<close>, which is not among the
  sources: a code object with a guard set, empty when none is given (spec 4.6, 6).
\<close>

record GuardedCode =
  gc_code :: code
  gc_guards :: "Guard set"

definition GuardedCode1 :: "code \<Rightarrow> GuardedCode" where
  "GuardedCode1 c = \<lparr>gc_code = c, gc_guards = {}\<rparr>"

definition GuardedCode2 :: "code \<Rightarrow> Guard set \<Rightarrow> GuardedCode" where
  "GuardedCode2 c g = \<lparr>gc_code = c, gc_guards = g\<rparr>"

text \<open>
  The collaborators whose code is not among the sources are parameters of the model:
  the allow-list, the unique-name generator, \<^verbatim>\<open>debug_checks\<close>, and the three operations
  of \<^verbatim>\<open>VariableTracker\<close> the tracer calls (\<^verbatim>\<open>propagate\<close> returns the state and the guard
  set of the value to build; \<^verbatim>\<open>combine_type\<close> returns a class, by its name;
  \<^verbatim>\<open>as_proxy\<close> returns a graph argument). Every theorem below holds for all of them.
\<close>

record env =
  is_allowed :: "pyval \<Rightarrow> bool"
  unique_id :: "string \<Rightarrow> string"
  debug_checks :: "code \<Rightarrow> error + unit"
  propagate :: "symval list \<Rightarrow> error + (TracingSupported \<times> Guard set)"
  combine_type :: "symval list \<Rightarrow> error + string"
  as_proxy :: "symval \<Rightarrow> error + garg"

section \<open>The tracer\<close>

datatype grapharg = LocalArg string | GlobalArg string

text \<open>
  The fields of \<^verbatim>\<open>InstructionTracer\<close>. The head of \<open>stack\<close> is the top of the stack
  (the last element of the Python list). \<open>symbolic_locals\<close> is keyed by the normal
  form of the operand.
\<close>

record tracer =
  graph :: "node list"
  instructions :: "Instruction list"
  stack :: "symval list"
  tr_f_globals :: "string \<rightharpoonup> pyval"
  tr_f_builtins :: "string \<rightharpoonup> pyval"
  instruction_pointer :: nat
  cnt :: nat
  graphargs :: "grapharg list"
  code_options :: code_options
  nn_modules :: "(string \<times> pyval) list"
  guards :: "Guard set"
  symbolic_locals :: "const \<rightharpoonup> symval"

definition create_load_fast :: "string \<Rightarrow> tracer \<Rightarrow> error + Instruction" where
  "create_load_fast name st =
     bindE (py_assert (name \<in> set (co_varnames (code_options st)))) (\<lambda>_.
       Inr (create_instruction ''LOAD_FAST''
              (Some (int (index_of name (co_varnames (code_options st))))) (CStr name)))"

definition create_load_global :: "string \<Rightarrow> tracer \<Rightarrow> error + Instruction" where
  "create_load_global name st =
     bindE (py_assert (name \<in> set (co_names (code_options st)))) (\<lambda>_.
       Inr (create_instruction ''LOAD_GLOBAL''
              (Some (int (index_of name (co_names (code_options st))))) (CStr name)))"

text \<open>\<^verbatim>\<open>arg.load(tracer)\<close> of \<^verbatim>\<open>LocalArg\<close> and \<^verbatim>\<open>GlobalArg\<close>.\<close>

fun load :: "grapharg \<Rightarrow> tracer \<Rightarrow> error + Instruction" where
  "load (LocalArg name) st = create_load_fast name st"
| "load (GlobalArg name) st = create_load_global name st"

text \<open>
  \<^verbatim>\<open>create_proxy(kind, target, args, kwargs)\<close> of \<^verbatim>\<open>fx.Tracer\<close>: a new node at the
  end of the graph.
\<close>

definition create_proxy ::
  "string \<Rightarrow> node_target \<Rightarrow> garg list \<Rightarrow> (const \<times> garg) list \<Rightarrow> tracer \<Rightarrow> nat \<times> tracer" where
  "create_proxy kind tgt as kws st =
     (length (graph st),
      st\<lparr>graph := graph st @
        [\<lparr>n_id = length (graph st), n_op = kind, n_target = tgt, n_args = as, n_kwargs = kws\<rparr>]\<rparr>)"

text \<open>\<^verbatim>\<open>graph.inserting_after(x)\<close>: the new node goes right behind \<open>x\<close>.\<close>

fun insert_after :: "node \<Rightarrow> node \<Rightarrow> node list \<Rightarrow> node list" where
  "insert_after x new [] = [new]"
| "insert_after x new (y # ys) =
     (if n_id y = n_id x then y # new # ys else y # insert_after x new ys)"

definition placeholders :: "node list \<Rightarrow> node list" where
  "placeholders g = filter (\<lambda>n. n_op n = ''placeholder'') g"

definition create_graph_input :: "string \<Rightarrow> tracer \<Rightarrow> nat \<times> tracer" where
  "create_graph_input name st =
     (let new = \<lparr>n_id = length (graph st), n_op = ''placeholder'',
                 n_target = TName (name @ ''_'' @ str_nat (cnt st)),
                 n_args = [], n_kwargs = []\<rparr>
      in (length (graph st),
          st\<lparr>cnt := cnt st + 1,
             graph := (if placeholders (graph st) \<noteq> []
                       then insert_after (last (placeholders (graph st))) new (graph st)
                       else new # graph st)\<rparr>))"

definition wrap_local :: "string \<Rightarrow> pyval \<Rightarrow> tracer \<Rightarrow> error + (symval \<times> tracer)" where
  "wrap_local name val st =
     (case val of
        PTensor t \<Rightarrow>
          (case create_graph_input name (st\<lparr>graphargs := graphargs st @ [LocalArg name]\<rparr>) of
             (p, st') \<Rightarrow> Inr (TensorVariable p YES {Guard name LOCAL TYPE_MATCH}, st'))
      | PModule c attrs \<Rightarrow>
          Inr (NNModuleVariable (name @ ''_'' @ str_nat (cnt st)) YES
                 {Guard name LOCAL VALUE_MATCH},
               st\<lparr>cnt := cnt st + 1,
                  nn_modules := AList.update (name @ ''_'' @ str_nat (cnt st)) val (nn_modules st)\<rparr>)
      | PBool b \<Rightarrow>
          Inr (ConstantVariable (CBool b) default_state {Guard name LOCAL VALUE_MATCH}, st)
      | PNone \<Rightarrow>
          Inr (ConstantVariable CNone default_state {Guard name LOCAL VALUE_MATCH}, st)
      | _ \<Rightarrow> unimplemented (''wrap_local: '' @ py_type_name val))"

text \<open>
  The dictionary comprehension of \<^verbatim>\<open>__init__\<close>: the names of \<^verbatim>\<open>co_varnames\<close>, in
  that order, that are bound in \<^verbatim>\<open>f_locals\<close>.
\<close>

fun wrap_locals :: "(string \<rightharpoonup> pyval) \<Rightarrow> string list \<Rightarrow> tracer \<Rightarrow> error + tracer" where
  "wrap_locals fl [] st = Inr st"
| "wrap_locals fl (k # ks) st =
     (case fl k of
        None \<Rightarrow> wrap_locals fl ks st
      | Some v \<Rightarrow>
          bindE (wrap_local k v st) (\<lambda>(sv, st').
            wrap_locals fl ks (st'\<lparr>symbolic_locals := (symbolic_locals st')(CStr k \<mapsto> sv)\<rparr>)))"

definition InstructionTracer ::
  "Instruction list \<Rightarrow> (string \<rightharpoonup> pyval) \<Rightarrow> (string \<rightharpoonup> pyval) \<Rightarrow> (string \<rightharpoonup> pyval) \<Rightarrow>
   code_options \<Rightarrow> error + tracer" where
  "InstructionTracer insts fl fg fb opts =
     wrap_locals fl (co_varnames opts)
       \<lparr>graph = [], instructions = insts, stack = [], tr_f_globals = fg, tr_f_builtins = fb,
        instruction_pointer = 0, cnt = 0, graphargs = [], code_options = opts,
        nn_modules = [], guards = {}, symbolic_locals = Map.empty\<rparr>"

subsection \<open>Stack primitives\<close>

definition push :: "symval \<Rightarrow> tracer \<Rightarrow> tracer" where
  "push val st = st\<lparr>stack := val # stack st\<rparr>"

definition pop :: "tracer \<Rightarrow> error + (symval \<times> tracer)" where
  "pop st = (case stack st of [] \<Rightarrow> Inl IndexError | v # vs \<Rightarrow> Inr (v, st\<lparr>stack := vs\<rparr>))"

text \<open>\<^verbatim>\<open>[self.pop() for _ in range(n)]\<close>, then \<^verbatim>\<open>popn\<close>, which reverses it.\<close>

fun pops :: "nat \<Rightarrow> tracer \<Rightarrow> error + (symval list \<times> tracer)" where
  "pops 0 st = Inr ([], st)"
| "pops (Suc n) st =
     bindE (pop st) (\<lambda>(v, st1). bindE (pops n st1) (\<lambda>(vs, st2). Inr (v # vs, st2)))"

definition popn :: "int \<Rightarrow> tracer \<Rightarrow> error + (symval list \<times> tracer)" where
  "popn n st = bindE (pops (nat n) st) (\<lambda>(vs, st'). Inr (rev vs, st'))"

subsection \<open>Calls\<close>

text \<open>
  \<^verbatim>\<open>get_submodule(keys)\<close>: the first key is looked up in the registry
  \<^verbatim>\<open>nn_modules\<close> (a dictionary), every later one is an attribute of the object found.
\<close>

fun getattr_path :: "pyval \<Rightarrow> string list \<Rightarrow> error + pyval" where
  "getattr_path obj [] = Inr obj"
| "getattr_path obj (k # ks) =
     (case py_getattr obj k of None \<Rightarrow> Inl AttributeError | Some v \<Rightarrow> getattr_path v ks)"

definition get_submodule :: "string \<Rightarrow> tracer \<Rightarrow> error + pyval" where
  "get_submodule keys st =
     bindE (py_assert (keys \<noteq> [])) (\<lambda>_.
       case split_dot keys of
         [] \<Rightarrow> Inl KeyError
       | k # ks \<Rightarrow>
           (case map_of (nn_modules st) k of
              None \<Rightarrow> Inl KeyError
            | Some v \<Rightarrow> getattr_path v ks))"

text \<open>
  The check on \<^verbatim>\<open>fn.value.__self__\<close> in \<^verbatim>\<open>call_function\<close>: when it is not \<^verbatim>\<open>None\<close>
  it must be a module (\<^verbatim>\<open>types.ModuleType\<close>) whose \<^verbatim>\<open>__name__\<close> is
  \<^verbatim>\<open>fn.value.__module__\<close>.
\<close>

definition check_self :: "pyval \<Rightarrow> error + unit" where
  "check_self val =
     (case getattr_or_None val ''__self__'' of
        PNone \<Rightarrow> Inr ()
      | PObj t attrs \<Rightarrow>
          (if t = ''module'' then
             (case map_of attrs ''__name__'' of
                None \<Rightarrow> Inl AttributeError
              | Some nm \<Rightarrow> py_assert (nm = getattr_or_None val ''__module__''))
           else Inl AssertionError)
      | _ \<Rightarrow> Inl AssertionError)"

definition as_proxies_kw :: "env \<Rightarrow> (const \<times> symval) list \<Rightarrow> error + (const \<times> garg) list" where
  "as_proxies_kw E kwargs = mapE (\<lambda>(k, v). bindE (as_proxy E v) (\<lambda>p. Inr (k, p))) kwargs"

text \<open>
  \<^verbatim>\<open>call_function\<close>. For a \<^verbatim>\<open>call_function\<close> node \<^verbatim>\<open>torch.fx\<close> requires a callable
  target and raises \<^verbatim>\<open>ValueError\<close> otherwise; the targets of the other nodes are the
  strings it expects.
\<close>

definition call_function ::
  "env \<Rightarrow> symval \<Rightarrow> symval list \<Rightarrow> (const \<times> symval) list \<Rightarrow> tracer \<Rightarrow> error + tracer" where
  "call_function E fn args kwargs st =
     (case fn of
        AllowedFunctionOrModuleVariable val s g \<Rightarrow>
          bindE (propagate E ([fn] @ args @ map snd kwargs)) (\<lambda>options.
          bindE (check_self val) (\<lambda>_.
          bindE (mapE (as_proxy E) args) (\<lambda>proxy_args.
          bindE (as_proxies_kw E kwargs) (\<lambda>proxy_kwargs.
            if py_callable val then
              (case create_proxy ''call_function'' (TValue val) proxy_args proxy_kwargs st of
                 (p, st') \<Rightarrow> Inr (push (TensorVariable p (fst options) (snd options)) st'))
            else Inl ValueError))))
      | GetAttrVariable obj name s g \<Rightarrow>
          bindE (propagate E ([fn] @ ([obj] @ args) @ map snd kwargs)) (\<lambda>options.
          bindE (mapE (as_proxy E) ([obj] @ args)) (\<lambda>proxy_args.
          bindE (as_proxies_kw E kwargs) (\<lambda>proxy_kwargs.
            case create_proxy ''call_method'' (TName name) proxy_args proxy_kwargs st of
              (p, st') \<Rightarrow> Inr (push (TensorVariable p (fst options) (snd options)) st'))))
      | NNModuleVariable key s g \<Rightarrow>
          bindE (get_submodule key st) (\<lambda>submod.
            if is_allowed E (py_class submod) then
              bindE (propagate E ([fn] @ args)) (\<lambda>options.
              bindE (mapE (as_proxy E) args) (\<lambda>proxy_args.
                case create_proxy ''call_module'' (TName key) proxy_args [] st of
                  (p, st') \<Rightarrow> Inr (push (TensorVariable p (fst options) (snd options)) st')))
            else unimplemented ''call custom module'')
      | _ \<Rightarrow> unimplemented ''call_function'')"

subsection \<open>The handlers\<close>

text \<open>
  One definition per handler method, with the method's name. A handler gets the
  collaborators, the instruction and the tracer (whose instruction pointer \<^verbatim>\<open>step\<close> has
  already advanced), and returns the tracer it leaves, or the exception it raises.
\<close>

definition LOAD_FAST :: "env \<Rightarrow> Instruction \<Rightarrow> tracer \<Rightarrow> error + tracer" where
  "LOAD_FAST E inst st =
     (case symbolic_locals st (key_norm (argval inst)) of
        None \<Rightarrow> Inl KeyError
      | Some v \<Rightarrow> Inr (push v st))"

definition STORE_FAST :: "env \<Rightarrow> Instruction \<Rightarrow> tracer \<Rightarrow> error + tracer" where
  "STORE_FAST E inst st =
     bindE (pop st) (\<lambda>(v, st').
       Inr (st'\<lparr>symbolic_locals := (symbolic_locals st')(key_norm (argval inst) \<mapsto> v)\<rparr>))"

definition LOAD_CONST :: "env \<Rightarrow> Instruction \<Rightarrow> tracer \<Rightarrow> error + tracer" where
  "LOAD_CONST E inst st = Inr (push (ConstantVariable (argval inst) UNKNOWN default_guards) st)"

definition load_builtin :: "Instruction \<Rightarrow> tracer \<Rightarrow> error + tracer" where
  "load_builtin inst st =
     (case argval inst of
        CStr name \<Rightarrow>
          bindE (py_assert (tr_f_builtins st name \<noteq> None)) (\<lambda>_.
            unimplemented (''load_builtin: '' @ name))
      | _ \<Rightarrow> Inl AssertionError)"

text \<open>
  In the branch for a global bound to a tensor the first statement is
  \<^verbatim>\<open>assert False, "TODO(jansel): need to debug a crash here"\<close>: the statements after it
  (append a \<^verbatim>\<open>GlobalArg\<close>, create a graph input, push a \<^verbatim>\<open>TensorVariable\<close>) are never
  reached.
\<close>

definition LOAD_GLOBAL :: "env \<Rightarrow> Instruction \<Rightarrow> tracer \<Rightarrow> error + tracer" where
  "LOAD_GLOBAL E inst st =
     (case argval inst of
        CStr name \<Rightarrow>
          (case tr_f_globals st name of
             None \<Rightarrow> load_builtin inst st
           | Some val \<Rightarrow>
               if is_allowed E val then
                 Inr (push (AllowedFunctionOrModuleVariable val YES
                              {Guard name GLOBAL FUNCTION_MATCH}) st)
               else (case val of
                       PTensor t \<Rightarrow> Inl AssertionError
                     | _ \<Rightarrow> unimplemented ''LOAD_GLOBAL''))
      | _ \<Rightarrow> load_builtin inst st)"

definition jump :: "Instruction \<Rightarrow> tracer \<Rightarrow> error + tracer" where
  "jump inst st =
     (case target inst of
        None \<Rightarrow> Inl KeyError
      | Some t \<Rightarrow>
          if t < length (instructions st) then Inr (st\<lparr>instruction_pointer := t\<rparr>)
          else Inl KeyError)"

definition POP_JUMP_IF_FALSE :: "env \<Rightarrow> Instruction \<Rightarrow> tracer \<Rightarrow> error + tracer" where
  "POP_JUMP_IF_FALSE E inst st =
     bindE (pop st) (\<lambda>(val, st1).
     bindE (guards_of val) (\<lambda>g.
       case val of
         ConstantVariable c s g' \<Rightarrow>
           if \<not> truthy c then jump inst (st1\<lparr>guards := guards st1 \<union> g\<rparr>)
           else Inr (st1\<lparr>guards := guards st1 \<union> g\<rparr>)
       | _ \<Rightarrow> unimplemented (''POP_JUMP_IF_FALSE '' @ type_name val)))"

definition CALL_FUNCTION :: "env \<Rightarrow> Instruction \<Rightarrow> tracer \<Rightarrow> error + tracer" where
  "CALL_FUNCTION E inst st =
     bindE (as_int (argval inst)) (\<lambda>n.
     bindE (popn n st) (\<lambda>(args, st1).
     bindE (pop st1) (\<lambda>(fn, st2).
       call_function E fn args [] st2)))"

definition CALL_FUNCTION_EX :: "env \<Rightarrow> Instruction \<Rightarrow> tracer \<Rightarrow> error + tracer" where
  "CALL_FUNCTION_EX E inst st =
     bindE (if key_norm (argval inst) = CInt 0 then
              bindE (pop st) (\<lambda>(argsvars, st1).
                Inr (ConstDictVariable [] default_state default_guards, argsvars, st1))
            else if key_norm (argval inst) = CInt 1 then
              bindE (pop st) (\<lambda>(kwargsvars, st1).
              bindE (pop st1) (\<lambda>(argsvars, st2).
                Inr (kwargsvars, argsvars, st2)))
            else unimplemented ''CALL_FUNCTION_EX'') (\<lambda>(kwargsvars, argsvars, st2).
     bindE (pop st2) (\<lambda>(fn, st3).
       case argsvars of
         ListVariable cls items s g \<Rightarrow>
           (case kwargsvars of
              ConstDictVariable kwitems s' g' \<Rightarrow> call_function E fn items kwitems st3
            | _ \<Rightarrow> Inl AssertionError)
       | _ \<Rightarrow> Inl AssertionError))"

definition CALL_FUNCTION_KW :: "env \<Rightarrow> Instruction \<Rightarrow> tracer \<Rightarrow> error + tracer" where
  "CALL_FUNCTION_KW E inst st =
     bindE (pop st) (\<lambda>(argnames, st1).
     bindE (as_int (argval inst)) (\<lambda>n.
     bindE (popn n st1) (\<lambda>(args, st2).
     bindE (pop st2) (\<lambda>(fn, st3).
       case argnames of
         ConstantVariable names s g \<Rightarrow>
           bindE (const_items names) (\<lambda>ks.
             let args' = slice_to (- int (length ks)) args;
                 kwargs = dict_zip ks (slice_from (- int (length ks)) args)
             in bindE (py_assert (length kwargs = length ks)) (\<lambda>_.
                  call_function E fn args' kwargs st3))
       | _ \<Rightarrow> Inl AssertionError))))"

definition LOAD_ATTR :: "env \<Rightarrow> Instruction \<Rightarrow> tracer \<Rightarrow> error + tracer" where
  "LOAD_ATTR E inst st =
     bindE (pop st) (\<lambda>(obj, st1).
     bindE (propagate E [obj]) (\<lambda>options.
       case argval inst of
         CStr name \<Rightarrow>
           (case obj of
              NNModuleVariable key s g \<Rightarrow>
                bindE (get_submodule (key @ ''.'' @ name) st1) (\<lambda>subobj.
                  case subobj of
                    PTensor t \<Rightarrow>
                      (case create_proxy ''get_attr'' (TName (key @ ''.'' @ name)) [] [] st1 of
                         (p, st2) \<Rightarrow>
                           Inr (push (TensorVariable p (fst options) (snd options)) st2))
                  | PModule c attrs \<Rightarrow>
                      Inr (push (NNModuleVariable (key @ ''.'' @ name)
                                   (fst options) (snd options)) st1)
                  | _ \<Rightarrow> unimplemented (''nn.Module attr '' @ py_type_name subobj))
            | TensorVariable p s g \<Rightarrow>
                Inr (push (GetAttrVariable obj name (fst options) (snd options)) st1)
            | AllowedFunctionOrModuleVariable val s g \<Rightarrow>
                (case py_getattr val name of
                   None \<Rightarrow> Inl AttributeError
                 | Some v \<Rightarrow>
                     Inr (push (AllowedFunctionOrModuleVariable v
                                  (fst options) (snd options)) st1))
            | _ \<Rightarrow> unimplemented ''LOAD_ATTR'')
       | _ \<Rightarrow> Inl TypeError))"

definition LOAD_METHOD :: "env \<Rightarrow> Instruction \<Rightarrow> tracer \<Rightarrow> error + tracer" where
  "LOAD_METHOD E inst st = bindE (LOAD_ATTR E inst st) (\<lambda>st1. Inr (push NoneValue st1))"

definition CALL_METHOD :: "env \<Rightarrow> Instruction \<Rightarrow> tracer \<Rightarrow> error + tracer" where
  "CALL_METHOD E inst st =
     bindE (as_int (argval inst)) (\<lambda>n.
     bindE (popn n st) (\<lambda>(args, st1).
     bindE (pop st1) (\<lambda>(dummy, st2).
     bindE (py_assert (dummy = NoneValue)) (\<lambda>_.
     bindE (pop st2) (\<lambda>(fn, st3).
       call_function E fn args [] st3)))))"

text \<open>\<^verbatim>\<open>BUILD_TUPLE\<close>, \<^verbatim>\<open>BUILD_SLICE\<close> and \<^verbatim>\<open>BUILD_LIST\<close> differ in the class they build.\<close>

definition build_seq :: "string \<Rightarrow> env \<Rightarrow> Instruction \<Rightarrow> tracer \<Rightarrow> error + tracer" where
  "build_seq cls E inst st =
     bindE (as_int (argval inst)) (\<lambda>n.
     bindE (popn n st) (\<lambda>(items, st1).
     bindE (propagate E items) (\<lambda>options.
       Inr (push (ListVariable cls items (fst options) (snd options)) st1))))"

definition BUILD_TUPLE :: "env \<Rightarrow> Instruction \<Rightarrow> tracer \<Rightarrow> error + tracer" where
  "BUILD_TUPLE = build_seq ''TupleVariable''"

definition BUILD_SLICE :: "env \<Rightarrow> Instruction \<Rightarrow> tracer \<Rightarrow> error + tracer" where
  "BUILD_SLICE = build_seq ''SliceVariable''"

definition BUILD_LIST :: "env \<Rightarrow> Instruction \<Rightarrow> tracer \<Rightarrow> error + tracer" where
  "BUILD_LIST = build_seq ''ListVariable''"

text \<open>The loop of \<^verbatim>\<open>BUILD_MAP\<close> over \<^verbatim>\<open>zip(items[::2], items[1::2])\<close>.\<close>

fun build_map :: "symval list \<Rightarrow> (const \<times> symval) list \<Rightarrow> error + (const \<times> symval) list" where
  "build_map (k # v # rest) result =
     (case k of
        ConstantVariable c s g \<Rightarrow> build_map rest (dict_set c v result)
      | _ \<Rightarrow> Inl AssertionError)"
| "build_map [k] result = Inr result"
| "build_map [] result = Inr result"

definition BUILD_MAP :: "env \<Rightarrow> Instruction \<Rightarrow> tracer \<Rightarrow> error + tracer" where
  "BUILD_MAP E inst st =
     bindE (as_int (argval inst)) (\<lambda>n.
     bindE (popn (n * 2) st) (\<lambda>(items, st1).
     bindE (propagate E items) (\<lambda>options.
     bindE (build_map items []) (\<lambda>result.
     bindE (py_assert (2 * length result = length items)) (\<lambda>_.
       Inr (push (ConstDictVariable result (fst options) (snd options)) st1))))))"

definition BUILD_CONST_KEY_MAP :: "env \<Rightarrow> Instruction \<Rightarrow> tracer \<Rightarrow> error + tracer" where
  "BUILD_CONST_KEY_MAP E inst st =
     bindE (pop st) (\<lambda>(keys, st1).
     bindE (as_int (argval inst)) (\<lambda>n.
     bindE (popn n st1) (\<lambda>(vals, st2).
     bindE (propagate E ([keys] @ vals)) (\<lambda>options.
       case keys of
         ConstantVariable (CTuple ks) s g \<Rightarrow>
           bindE (py_assert (length ks = length vals)) (\<lambda>_.
             Inr (push (ConstDictVariable (dict_zip ks vals) (fst options) (snd options)) st2))
       | _ \<Rightarrow> Inl AssertionError))))"

definition UNPACK_SEQUENCE :: "env \<Rightarrow> Instruction \<Rightarrow> tracer \<Rightarrow> error + tracer" where
  "UNPACK_SEQUENCE E inst st =
     bindE (pop st) (\<lambda>(seq, st1).
       case seq of
         ListVariable cls items s g \<Rightarrow>
           bindE (py_assert (CInt (int (length items)) = key_norm (argval inst))) (\<lambda>_.
             Inr (fold push (rev items) st1))
       | _ \<Rightarrow> unimplemented (''UNPACK_SEQUENCE '' @ type_name seq))"

text \<open>
  \<^verbatim>\<open>FakeRootModule(nn_modules)\<close>: the constructor's loop, which asserts that the
  registered modules agree on their \<^verbatim>\<open>training\<close> attribute where they have one.
  The first argument is the loop's variable \<^verbatim>\<open>training\<close>.
\<close>

fun FakeRootModule :: "pyval \<Rightarrow> (string \<times> pyval) list \<Rightarrow> error + unit" where
  "FakeRootModule training [] = Inr ()"
| "FakeRootModule training ((k, v) # kvs) =
     bindE (py_assert (training = PNone \<or> getattr_or_None v ''training'' = PNone
                       \<or> training = getattr_or_None v ''training'')) (\<lambda>_.
       FakeRootModule (if getattr_or_None v ''training'' \<noteq> PNone
                       then getattr_or_None v ''training'' else training) kvs)"

text \<open>
  \<^verbatim>\<open>RETURN_VALUE\<close>. The statistics counters are not modelled; building and compiling
  the \<^verbatim>\<open>GraphModule\<close> is the external graph compiler, of which the model keeps the
  assertion of \<^verbatim>\<open>FakeRootModule\<close> and the result \<^verbatim>\<open>gm.forward\<close>.
\<close>

definition RETURN_VALUE :: "env \<Rightarrow> Instruction \<Rightarrow> tracer \<Rightarrow> error + tracer" where
  "RETURN_VALUE E inst st =
     bindE (pop st) (\<lambda>(rv, st1).
     bindE (state_of rv) (\<lambda>s.
       if s = YES then
         (case rv of
            TensorVariable p s' g \<Rightarrow>
              (case create_proxy ''output'' (TName ''output'') [GNode p] [] st1 of
                 (out, st2) \<Rightarrow>
                   bindE (FakeRootModule PNone (nn_modules st2)) (\<lambda>_.
                     let name = unique_id E ''__translated_fn'';
                         st3 = st2\<lparr>guards := guards st2 \<union> g,
                                  tr_f_globals := (tr_f_globals st2)(name \<mapsto> PForward),
                                  code_options := (code_options st2)
                                    \<lparr>co_names := co_names (code_options st2) @ [name],
                                     co_stacksize := length (graphargs st2) + 1\<rparr>\<rparr>
                     in bindE (create_load_global name st3) (\<lambda>ld.
                        bindE (mapE (\<lambda>a. load a st3) (graphargs st3)) (\<lambda>lds.
                          Inr (st3\<lparr>instructions :=
                                 [ld] @ lds @
                                 [create_instruction ''CALL_FUNCTION''
                                    (Some (int (length (graphargs st3))))
                                    (CInt (int (length (graphargs st3)))),
                                  create_instruction ''RETURN_VALUE'' None CNone]\<rparr>)))))
          | _ \<Rightarrow> unimplemented (''RETURN_VALUE '' @ type_name rv))
       else unimplemented ''not traceable''))"

definition NOP :: "env \<Rightarrow> Instruction \<Rightarrow> tracer \<Rightarrow> error + tracer" where
  "NOP E inst st = Inr st"

definition POP_TOP :: "env \<Rightarrow> Instruction \<Rightarrow> tracer \<Rightarrow> error + tracer" where
  "POP_TOP E inst st = bindE (pop st) (\<lambda>(a, st1). Inr st1)"

definition ROT_TWO :: "env \<Rightarrow> Instruction \<Rightarrow> tracer \<Rightarrow> error + tracer" where
  "ROT_TWO E inst st =
     bindE (pop st) (\<lambda>(a, st1).
     bindE (pop st1) (\<lambda>(b, st2).
       Inr (push b (push a st2))))"

definition ROT_THREE :: "env \<Rightarrow> Instruction \<Rightarrow> tracer \<Rightarrow> error + tracer" where
  "ROT_THREE E inst st =
     bindE (pop st) (\<lambda>(a, st1).
     bindE (pop st1) (\<lambda>(b, st2).
     bindE (pop st2) (\<lambda>(c, st3).
       Inr (push b (push c (push a st3))))))"

definition ROT_FOUR :: "env \<Rightarrow> Instruction \<Rightarrow> tracer \<Rightarrow> error + tracer" where
  "ROT_FOUR E inst st =
     bindE (pop st) (\<lambda>(a, st1).
     bindE (pop st1) (\<lambda>(b, st2).
     bindE (pop st2) (\<lambda>(c, st3).
     bindE (pop st3) (\<lambda>(d, st4).
       Inr (push b (push c (push d (push a st4))))))))"

definition DUP_TOP :: "env \<Rightarrow> Instruction \<Rightarrow> tracer \<Rightarrow> error + tracer" where
  "DUP_TOP E inst st = bindE (pop st) (\<lambda>(a, st1). Inr (push a (push a st1)))"

definition DUP_TOP_TWO :: "env \<Rightarrow> Instruction \<Rightarrow> tracer \<Rightarrow> error + tracer" where
  "DUP_TOP_TWO E inst st =
     bindE (pop st) (\<lambda>(a, st1).
     bindE (pop st1) (\<lambda>(b, st2).
       Inr (push a (push b (push a (push b st2))))))"

text \<open>
  \<^verbatim>\<open>stack_op(fn)\<close>, the decorator behind the unary and binary operators: \<open>nargs\<close> is
  the number of parameters of \<^verbatim>\<open>fn\<close>. Applying \<^verbatim>\<open>fn\<close> to proxies is \<^verbatim>\<open>torch.fx\<close>'s
  operator overloading, which records a call of the operator; the operator is named
  here by its handler. The one operator a proxy does not overload is \<^verbatim>\<open>not\<close>: it asks
  for the truth value of the proxy, and \<^verbatim>\<open>torch.fx\<close> raises \<^verbatim>\<open>TraceError\<close>.
\<close>

definition stack_op :: "string \<Rightarrow> nat \<Rightarrow> env \<Rightarrow> Instruction \<Rightarrow> tracer \<Rightarrow> error + tracer" where
  "stack_op fn nargs E inst st =
     bindE (popn (int nargs) st) (\<lambda>(inputs, st1).
     bindE (combine_type E inputs) (\<lambda>cls.
     bindE (propagate E inputs) (\<lambda>options.
       if cls = ''TensorVariable'' then
         bindE (mapE (as_proxy E) inputs) (\<lambda>ps.
           if fn = ''UNARY_NOT'' then Inl TraceError
           else (case create_proxy ''call_function'' (TOperator fn) ps [] st1 of
                   (p, st2) \<Rightarrow> Inr (push (TensorVariable p (fst options) (snd options)) st2)))
       else unimplemented (''stack_op '' @ cls))))"

subsection \<open>Dispatch\<close>

text \<open>
  The methods \<^verbatim>\<open>getattr(self, inst.opname)\<close> can find. An opcode name of the
  \<^verbatim>\<open>dis\<close> module is upper case, so it names no other attribute of the tracer:
  \<^verbatim>\<open>hasattr(self, inst.opname)\<close> holds exactly for the names of this table.
\<close>

definition handlers :: "(string \<times> (env \<Rightarrow> Instruction \<Rightarrow> tracer \<Rightarrow> error + tracer)) list" where
  "handlers =
     [(''LOAD_FAST'', LOAD_FAST), (''STORE_FAST'', STORE_FAST), (''LOAD_CONST'', LOAD_CONST),
      (''LOAD_GLOBAL'', LOAD_GLOBAL), (''POP_JUMP_IF_FALSE'', POP_JUMP_IF_FALSE),
      (''RETURN_VALUE'', RETURN_VALUE),
      (''CALL_FUNCTION'', CALL_FUNCTION), (''CALL_FUNCTION_EX'', CALL_FUNCTION_EX),
      (''CALL_FUNCTION_KW'', CALL_FUNCTION_KW), (''LOAD_METHOD'', LOAD_METHOD),
      (''CALL_METHOD'', CALL_METHOD), (''LOAD_ATTR'', LOAD_ATTR),
      (''BUILD_TUPLE'', BUILD_TUPLE), (''BUILD_SLICE'', BUILD_SLICE),
      (''BUILD_LIST'', BUILD_LIST), (''BUILD_MAP'', BUILD_MAP),
      (''BUILD_CONST_KEY_MAP'', BUILD_CONST_KEY_MAP), (''UNPACK_SEQUENCE'', UNPACK_SEQUENCE),
      (''NOP'', NOP), (''POP_TOP'', POP_TOP), (''ROT_TWO'', ROT_TWO),
      (''ROT_THREE'', ROT_THREE), (''ROT_FOUR'', ROT_FOUR), (''DUP_TOP'', DUP_TOP),
      (''DUP_TOP_TWO'', DUP_TOP_TWO),
      (''UNARY_POSITIVE'', stack_op ''UNARY_POSITIVE'' 1),
      (''UNARY_NEGATIVE'', stack_op ''UNARY_NEGATIVE'' 1),
      (''UNARY_NOT'', stack_op ''UNARY_NOT'' 1),
      (''UNARY_INVERT'', stack_op ''UNARY_INVERT'' 1),
      (''BINARY_POWER'', stack_op ''BINARY_POWER'' 2),
      (''BINARY_MULTIPLY'', stack_op ''BINARY_MULTIPLY'' 2),
      (''BINARY_MATRIX_MULTIPLY'', stack_op ''BINARY_MATRIX_MULTIPLY'' 2),
      (''BINARY_FLOOR_DIVIDE'', stack_op ''BINARY_FLOOR_DIVIDE'' 2),
      (''BINARY_TRUE_DIVIDE'', stack_op ''BINARY_TRUE_DIVIDE'' 2),
      (''BINARY_MODULO'', stack_op ''BINARY_MODULO'' 2),
      (''BINARY_ADD'', stack_op ''BINARY_ADD'' 2),
      (''BINARY_SUBTRACT'', stack_op ''BINARY_SUBTRACT'' 2),
      (''BINARY_SUBSCR'', stack_op ''BINARY_SUBSCR'' 2),
      (''BINARY_LSHIFT'', stack_op ''BINARY_LSHIFT'' 2),
      (''BINARY_RSHIFT'', stack_op ''BINARY_RSHIFT'' 2),
      (''BINARY_AND'', stack_op ''BINARY_AND'' 2),
      (''BINARY_XOR'', stack_op ''BINARY_XOR'' 2),
      (''BINARY_OR'', stack_op ''BINARY_OR'' 2)]"

text \<open>
  \<^verbatim>\<open>step\<close>: fetch (an index past the end raises IndexError), advance the pointer,
  dispatch. The flag returned is \<^verbatim>\<open>inst.opname != "RETURN_VALUE"\<close>.
\<close>

definition step :: "env \<Rightarrow> tracer \<Rightarrow> error + (tracer \<times> bool)" where
  "step E st =
     (if instruction_pointer st < length (instructions st) then
        (case map_of handlers (opname (instructions st ! instruction_pointer st)) of
           None \<Rightarrow>
             unimplemented (''missing: '' @ opname (instructions st ! instruction_pointer st))
         | Some h \<Rightarrow>
             bindE (h E (instructions st ! instruction_pointer st)
                      (st\<lparr>instruction_pointer := instruction_pointer st + 1\<rparr>)) (\<lambda>st'.
               Inr (st', opname (instructions st ! instruction_pointer st) \<noteq> ''RETURN_VALUE'')))
      else Inl IndexError)"

text \<open>
  \<^verbatim>\<open>run\<close>: \<^verbatim>\<open>while self.step(): pass\<close>. The loop may run forever (a conditional
  jump backwards on a constant), so the model counts the calls of \<^verbatim>\<open>step\<close> it may
  make: \<open>None\<close> is "not finished within that many calls".
\<close>

fun run :: "env \<Rightarrow> nat \<Rightarrow> tracer \<Rightarrow> (error + tracer) option" where
  "run E 0 st = None"
| "run E (Suc n) st =
     (case step E st of
        Inl e \<Rightarrow> Some (Inl e)
      | Inr (st', continue) \<Rightarrow> if continue then run E n st' else Some (Inr st'))"

text \<open>
  The tracer states at which \<^verbatim>\<open>run\<close> fetched an instruction (stepped onto it), in
  order, each as it was before that step; and the instruction fetched at a state.
\<close>

fun stepped :: "env \<Rightarrow> nat \<Rightarrow> tracer \<Rightarrow> tracer list" where
  "stepped E 0 st = []"
| "stepped E (Suc n) st =
     (if instruction_pointer st < length (instructions st) then
        st # (case step E st of
                Inl e \<Rightarrow> []
              | Inr (st', continue) \<Rightarrow> if continue then stepped E n st' else [])
      else [])"

definition current :: "tracer \<Rightarrow> Instruction" where
  "current st = instructions st ! instruction_pointer st"

section \<open>The entry points\<close>

text \<open>
  The closure \<^verbatim>\<open>transform\<close> of \<^verbatim>\<open>convert_frame_assert\<close>: build the tracer, run it;
  its result is the tracer \<^verbatim>\<open>run\<close> leaves.
\<close>

definition transform ::
  "env \<Rightarrow> nat \<Rightarrow> frame \<Rightarrow> Instruction list \<Rightarrow> code_options \<Rightarrow> (error + tracer) option" where
  "transform E fuel fr insts opts =
     (case InstructionTracer insts (f_locals fr) (f_globals fr) (f_builtins fr) opts of
        Inl e \<Rightarrow> Some (Inl e)
      | Inr tr \<Rightarrow> run E fuel tr)"

text \<open>
  Modelled from the spec: \<^verbatim>\<open>transform_code_object\<close> of \<^verbatim>\<open>bytecode_transformation.py\<close>,
  which is not among the sources (spec section 6: it supplies the decoded instruction
  stream and the metadata, and patches the code with what the transformation leaves in
  them).
\<close>

definition transform_code_object ::
  "code \<Rightarrow> (Instruction list \<Rightarrow> code_options \<Rightarrow> (error + tracer) option) \<Rightarrow>
   (error + code \<times> tracer) option" where
  "transform_code_object c transformations =
     (case transformations (co_instructions c) (co_options c) of
        None \<Rightarrow> None
      | Some (Inl e) \<Rightarrow> Some (Inl e)
      | Some (Inr tr) \<Rightarrow>
          Some (Inr (c\<lparr>co_instructions := instructions tr, co_options := code_options tr\<rparr>, tr)))"

definition convert_frame_assert :: "env \<Rightarrow> nat \<Rightarrow> frame \<Rightarrow> (error + GuardedCode) option" where
  "convert_frame_assert E fuel fr =
     (if prefix ''<eval_with_key>'' (co_filename (f_code fr)) then
        Some (Inr (GuardedCode1 (f_code fr)))
      else
        (case debug_checks E (f_code fr) of
           Inl e \<Rightarrow> Some (Inl e)
         | Inr _ \<Rightarrow>
             (case transform_code_object (f_code fr) (transform E fuel fr) of
                None \<Rightarrow> None
              | Some (Inl e) \<Rightarrow> Some (Inl e)
              | Some (Inr (c, tr)) \<Rightarrow> Some (Inr (GuardedCode2 c (guards tr))))))"

text \<open>
  \<^verbatim>\<open>convert_frame\<close>: the two \<^verbatim>\<open>except\<close> clauses (the second logs) fall through to
  \<^verbatim>\<open>return GuardedCode(frame.f_code)\<close>. The result type keeps an \<open>Inl\<close> for an
  exception that would leave \<^verbatim>\<open>convert_frame\<close>. All exceptions of the model derive
  from \<^verbatim>\<open>Exception\<close>.
\<close>

definition convert_frame :: "env \<Rightarrow> nat \<Rightarrow> frame \<Rightarrow> (error + GuardedCode) option" where
  "convert_frame E fuel fr =
     (case convert_frame_assert E fuel fr of
        None \<Rightarrow> None
      | Some (Inr result) \<Rightarrow> Some (Inr result)
      | Some (Inl (NotImplementedError name)) \<Rightarrow> Some (Inr (GuardedCode1 (f_code fr)))
      | Some (Inl e) \<Rightarrow> Some (Inr (GuardedCode1 (f_code fr))))"

section \<open>One instance of the collaborators\<close>

text \<open>
  Modelled from the spec: one admissible choice of the collaborators, used to evaluate
  the model on concrete frames. \<^verbatim>\<open>propagate\<close> unions the guards of its inputs and takes
  the least capable of their states (spec 4.1); \<^verbatim>\<open>combine_type\<close> is
  \<^verbatim>\<open>TensorVariable\<close> when every input is one and the class of the first other input
  otherwise (spec 4.4: "require all to be NumericArray (abort naming the concrete kind
  otherwise)"); \<^verbatim>\<open>as_proxy\<close> gives the node of an array and the value of a literal.
  The allow-list holds builtin functions, Python modules and the class \<^verbatim>\<open>Linear\<close>.
\<close>

fun combine_state :: "TracingSupported \<Rightarrow> TracingSupported \<Rightarrow> TracingSupported" where
  "combine_state NO b = NO"
| "combine_state a NO = NO"
| "combine_state UNKNOWN b = UNKNOWN"
| "combine_state a UNKNOWN = UNKNOWN"
| "combine_state YES YES = YES"

fun std_propagate :: "symval list \<Rightarrow> error + (TracingSupported \<times> Guard set)" where
  "std_propagate [] = Inr (default_state, default_guards)"
| "std_propagate [v] =
     bindE (state_of v) (\<lambda>s. bindE (guards_of v) (\<lambda>g. Inr (s, g)))"
| "std_propagate (v # vs) =
     bindE (state_of v) (\<lambda>s. bindE (guards_of v) (\<lambda>g.
     bindE (std_propagate vs) (\<lambda>(s', g'). Inr (combine_state s s', g \<union> g'))))"

fun std_combine_type :: "symval list \<Rightarrow> error + string" where
  "std_combine_type [] = Inr ''TensorVariable''"
| "std_combine_type (TensorVariable p s g # vs) = std_combine_type vs"
| "std_combine_type (NoneValue # vs) = Inl AssertionError"
| "std_combine_type (v # vs) = Inr (type_name v)"

fun std_as_proxy :: "symval \<Rightarrow> error + garg" where
  "std_as_proxy (TensorVariable p s g) = Inr (GNode p)"
| "std_as_proxy (ConstantVariable c s g) = Inr (GConst c)"
| "std_as_proxy v = Inl (NotImplementedError ''as_proxy'')"

fun std_is_allowed :: "pyval \<Rightarrow> bool" where
  "std_is_allowed (PObj t attrs) = (t = ''builtin_function_or_method'' \<or> t = ''module'')"
| "std_is_allowed (PClass c) = (c = ''Linear'')"
| "std_is_allowed v = False"

definition std_env :: env where
  "std_env = \<lparr>is_allowed = std_is_allowed,
              unique_id = (\<lambda>name. name @ ''_0''),
              debug_checks = (\<lambda>c. Inr ()),
              propagate = std_propagate,
              combine_type = std_combine_type,
              as_proxy = std_as_proxy\<rparr>"

section \<open>Notions the properties are stated with\<close>

text \<open>
  What every handler but \<^verbatim>\<open>POP_JUMP_IF_FALSE\<close> and \<^verbatim>\<open>RETURN_VALUE\<close> leaves as it
  finds it.
\<close>

definition fixed_part ::
  "tracer \<Rightarrow> nat \<times> Instruction list \<times> Guard set \<times> grapharg list \<times> node list \<times> code_options" where
  "fixed_part st =
     (instruction_pointer st, instructions st, guards st, graphargs st,
      placeholders (graph st), code_options st)"

text \<open>The guard set of the value on top of the stack: what the next pop yields.\<close>

definition top_guards :: "tracer \<Rightarrow> Guard set" where
  "top_guards st =
     (case stack st of
        [] \<Rightarrow> {}
      | v # vs \<Rightarrow> (case guards_of v of Inl e \<Rightarrow> {} | Inr g \<Rightarrow> g))"

text \<open>The states of a list at which the instruction fetched has the given name.\<close>

definition stepped_onto :: "string \<Rightarrow> tracer list \<Rightarrow> tracer list" where
  "stepped_onto name sts = filter (\<lambda>s. opname (current s) = name) sts"

text \<open>Every jump target lies strictly behind the instruction that jumps to it.\<close>

definition forward_jumps :: "Instruction list \<Rightarrow> bool" where
  "forward_jumps insts =
     list_all (\<lambda>(n, i). case target i of None \<Rightarrow> True | Some t \<Rightarrow> n < t) (enumerate 0 insts)"

fun arg_name :: "grapharg \<Rightarrow> string" where
  "arg_name (LocalArg name) = name"
| "arg_name (GlobalArg name) = name"

text \<open>The node is the placeholder created for the captured argument.\<close>

definition placeholder_for :: "grapharg \<Rightarrow> node \<Rightarrow> bool" where
  "placeholder_for a n \<longleftrightarrow>
     n_op n = ''placeholder'' \<and> (\<exists>k. n_target n = TName (arg_name a @ ''_'' @ str_nat k))"

text \<open>
  The instruction that loads a captured argument, as \<^verbatim>\<open>LocalArg.load\<close> and
  \<^verbatim>\<open>GlobalArg.load\<close> build it when their assertion holds.
\<close>

definition load_instruction :: "code_options \<Rightarrow> grapharg \<Rightarrow> Instruction" where
  "load_instruction opts a =
     (case a of
        LocalArg name \<Rightarrow>
          create_instruction ''LOAD_FAST'' (Some (int (index_of name (co_varnames opts)))) (CStr name)
      | GlobalArg name \<Rightarrow>
          create_instruction ''LOAD_GLOBAL'' (Some (int (index_of name (co_names opts)))) (CStr name))"

text \<open>
  The instruction stream \<^verbatim>\<open>RETURN_VALUE\<close> leaves, read off the tracer it leaves: load
  the compiled callable, load the captured arguments in the order of \<^verbatim>\<open>graphargs\<close>,
  call, return.
\<close>

definition rewritten :: "env \<Rightarrow> tracer \<Rightarrow> Instruction list" where
  "rewritten E st =
     [create_instruction ''LOAD_GLOBAL''
        (Some (int (index_of (unique_id E ''__translated_fn'') (co_names (code_options st)))))
        (CStr (unique_id E ''__translated_fn''))]
     @ map (load_instruction (code_options st)) (graphargs st)
     @ [create_instruction ''CALL_FUNCTION'' (Some (int (length (graphargs st))))
          (CInt (int (length (graphargs st)))),
        create_instruction ''RETURN_VALUE'' None CNone]"

text \<open>The placeholder node \<^verbatim>\<open>create_graph_input(name)\<close> creates.\<close>

definition new_placeholder :: "string \<Rightarrow> tracer \<Rightarrow> node" where
  "new_placeholder name st =
     \<lparr>n_id = length (graph st), n_op = ''placeholder'',
      n_target = TName (name @ ''_'' @ str_nat (cnt st)), n_args = [], n_kwargs = []\<rparr>"

text \<open>The name is bound to a tensor in the table of locals.\<close>

definition tensor_bound :: "(string \<rightharpoonup> pyval) \<Rightarrow> string \<Rightarrow> bool" where
  "tensor_bound fl k = (case fl k of Some (PTensor t) \<Rightarrow> True | _ \<Rightarrow> False)"

text \<open>
  Node identities are the creation stamps: pairwise distinct and below the number of
  nodes. With it, the invariant of the tracer's constructor: the placeholders of the
  graph, in graph order, are those of the captured arguments, in their order, and
  their creation stamps increase.
\<close>

definition graph_ids_ok :: "node list \<Rightarrow> bool" where
  "graph_ids_ok g \<longleftrightarrow> distinct (map n_id g) \<and> list_all (\<lambda>n. n_id n < length g) g"

definition init_inv :: "tracer \<Rightarrow> bool" where
  "init_inv st \<longleftrightarrow>
     graph_ids_ok (graph st) \<and>
     list_all2 placeholder_for (graphargs st) (placeholders (graph st)) \<and>
     sorted_wrt (<) (map n_id (placeholders (graph st)))"

text \<open>A handler that leaves the fixed part of the tracer as it finds it.\<close>

definition keeps :: "(env \<Rightarrow> Instruction \<Rightarrow> tracer \<Rightarrow> error + tracer) \<Rightarrow> bool" where
  "keeps h \<longleftrightarrow>
     (\<forall>E inst st. case h E inst st of Inl e \<Rightarrow> True | Inr st' \<Rightarrow> fixed_part st' = fixed_part st)"

text \<open>\<^verbatim>\<open>hasattr(self, name)\<close>, for an opcode name.\<close>

definition has_handler :: "string \<Rightarrow> bool" where
  "has_handler name \<longleftrightarrow> name \<in> set (map fst handlers)"

text \<open>
  The frame's code is not the output of the graph compiler, so \<^verbatim>\<open>convert_frame_assert\<close>
  traces it; the tracer \<^verbatim>\<open>transform\<close> builds for the frame; the tracer a successful
  trace of the frame leaves; the states at which the trace of the frame fetched an
  instruction; and \<^verbatim>\<open>GuardedCode(frame.f_code)\<close>, the frame's own code with no guard.
\<close>

definition traced :: "frame \<Rightarrow> bool" where
  "traced fr \<longleftrightarrow> \<not> prefix ''<eval_with_key>'' (co_filename (f_code fr))"

definition tracer_of :: "frame \<Rightarrow> error + tracer" where
  "tracer_of fr =
     InstructionTracer (co_instructions (f_code fr)) (f_locals fr) (f_globals fr)
       (f_builtins fr) (co_options (f_code fr))"

definition final_tracer :: "env \<Rightarrow> nat \<Rightarrow> frame \<Rightarrow> tracer option" where
  "final_tracer E fuel fr =
     (case tracer_of fr of
        Inl e \<Rightarrow> None
      | Inr st0 \<Rightarrow> (case run E fuel st0 of Some (Inr st') \<Rightarrow> Some st' | _ \<Rightarrow> None))"

definition steps_of :: "env \<Rightarrow> nat \<Rightarrow> frame \<Rightarrow> tracer list" where
  "steps_of E fuel fr = (case tracer_of fr of Inl e \<Rightarrow> [] | Inr st0 \<Rightarrow> stepped E fuel st0)"

definition original :: "frame \<Rightarrow> GuardedCode" where
  "original fr = \<lparr>gc_code = f_code fr, gc_guards = {}\<rparr>"

section \<open>Example frames\<close>

text \<open>
  Small frames on which the model is evaluated. \<open>ex_code\<close> is a code object with a
  stack-size hint of 10; \<open>jump_to\<close> gives an instruction its jump target.
\<close>

definition ex_code :: "Instruction list \<Rightarrow> string list \<Rightarrow> string list \<Rightarrow> code" where
  "ex_code insts names varnames =
     \<lparr>co_filename = ''example.py'', co_instructions = insts,
      co_options = \<lparr>co_names = names, co_varnames = varnames, co_stacksize = 10\<rparr>\<rparr>"

definition jump_to :: "nat \<Rightarrow> Instruction \<Rightarrow> Instruction" where
  "jump_to t i = i\<lparr>target := Some t\<rparr>"

text \<open>\<^verbatim>\<open>return x + y\<close> with both locals bound to tensors.\<close>

definition ex_add :: frame where
  "ex_add =
     \<lparr>f_code = ex_code
        [create_instruction ''LOAD_FAST'' (Some 0) (CStr ''x''),
         create_instruction ''LOAD_FAST'' (Some 1) (CStr ''y''),
         create_instruction ''BINARY_ADD'' None CNone,
         create_instruction ''RETURN_VALUE'' None CNone] [] [''x'', ''y''],
      f_locals = [''x'' \<mapsto> PTensor 0, ''y'' \<mapsto> PTensor 1],
      f_globals = Map.empty, f_builtins = Map.empty\<rparr>"

text \<open>\<^verbatim>\<open>return s\<close> with the local bound to a string.\<close>

definition ex_str :: frame where
  "ex_str =
     \<lparr>f_code = ex_code
        [create_instruction ''LOAD_FAST'' (Some 0) (CStr ''s''),
         create_instruction ''RETURN_VALUE'' None CNone] [] [''s''],
      f_locals = [''s'' \<mapsto> PStr ''a''],
      f_globals = Map.empty, f_builtins = Map.empty\<rparr>"

text \<open>A stream with an opcode the tracer has no handler for.\<close>

definition ex_missing :: frame where
  "ex_missing =
     \<lparr>f_code = ex_code
        [create_instruction ''LOAD_FAST'' (Some 0) (CStr ''x''),
         jump_to 2 (create_instruction ''JUMP_ABSOLUTE'' (Some 4) (CInt 4)),
         create_instruction ''RETURN_VALUE'' None CNone] [] [''x''],
      f_locals = [''x'' \<mapsto> PTensor 0],
      f_globals = Map.empty, f_builtins = Map.empty\<rparr>"

text \<open>
  A stream whose last instruction has no handler and stands after the return, where
  the trace never arrives.
\<close>

definition ex_unreached :: frame where
  "ex_unreached =
     \<lparr>f_code = ex_code
        [create_instruction ''LOAD_FAST'' (Some 0) (CStr ''x''),
         create_instruction ''RETURN_VALUE'' None CNone,
         jump_to 0 (create_instruction ''JUMP_ABSOLUTE'' (Some 0) (CInt 0))] [] [''x''],
      f_locals = [''x'' \<mapsto> PTensor 0],
      f_globals = Map.empty, f_builtins = Map.empty\<rparr>"

text \<open>
  \<^verbatim>\<open>if flag: return x\<close>, \<^verbatim>\<open>else: return x\<close>, with \<^verbatim>\<open>flag\<close> bound to the given
  value and \<^verbatim>\<open>x\<close> to a tensor.
\<close>

definition ex_branch :: "pyval \<Rightarrow> frame" where
  "ex_branch v =
     \<lparr>f_code = ex_code
        [create_instruction ''LOAD_FAST'' (Some 0) (CStr ''flag''),
         jump_to 4 (create_instruction ''POP_JUMP_IF_FALSE'' (Some 8) (CInt 8)),
         create_instruction ''LOAD_FAST'' (Some 1) (CStr ''x''),
         create_instruction ''RETURN_VALUE'' None CNone,
         create_instruction ''LOAD_FAST'' (Some 1) (CStr ''x''),
         create_instruction ''RETURN_VALUE'' None CNone] [] [''flag'', ''x''],
      f_locals = [''flag'' \<mapsto> v, ''x'' \<mapsto> PTensor 0],
      f_globals = Map.empty, f_builtins = Map.empty\<rparr>"

text \<open>\<^verbatim>\<open>a, b = (1, 2, 3)\<close> before constant folding: three items unpacked into two targets.\<close>

definition ex_unpack :: frame where
  "ex_unpack =
     \<lparr>f_code = ex_code
        [create_instruction ''LOAD_CONST'' (Some 1) (CInt 1),
         create_instruction ''LOAD_CONST'' (Some 2) (CInt 2),
         create_instruction ''LOAD_CONST'' (Some 3) (CInt 3),
         create_instruction ''BUILD_TUPLE'' (Some 3) (CInt 3),
         create_instruction ''UNPACK_SEQUENCE'' (Some 2) (CInt 2),
         create_instruction ''STORE_FAST'' (Some 0) (CStr ''a''),
         create_instruction ''STORE_FAST'' (Some 1) (CStr ''b''),
         create_instruction ''LOAD_FAST'' (Some 0) (CStr ''a''),
         create_instruction ''RETURN_VALUE'' None CNone] [] [''a'', ''b''],
      f_locals = Map.empty, f_globals = Map.empty, f_builtins = Map.empty\<rparr>"

text \<open>The same with two items: the counts match.\<close>

definition ex_unpack2 :: frame where
  "ex_unpack2 =
     \<lparr>f_code = ex_code
        [create_instruction ''LOAD_CONST'' (Some 1) (CInt 1),
         create_instruction ''LOAD_CONST'' (Some 2) (CInt 2),
         create_instruction ''BUILD_TUPLE'' (Some 2) (CInt 2),
         create_instruction ''UNPACK_SEQUENCE'' (Some 2) (CInt 2),
         create_instruction ''STORE_FAST'' (Some 0) (CStr ''a''),
         create_instruction ''STORE_FAST'' (Some 1) (CStr ''b''),
         create_instruction ''LOAD_FAST'' (Some 0) (CStr ''a''),
         create_instruction ''RETURN_VALUE'' None CNone] [] [''a'', ''b''],
      f_locals = Map.empty, f_globals = Map.empty, f_builtins = Map.empty\<rparr>"

text \<open>\<^verbatim>\<open>return w\<close> with the global \<^verbatim>\<open>w\<close> bound to a tensor.\<close>

definition ex_global :: frame where
  "ex_global =
     \<lparr>f_code = ex_code
        [create_instruction ''LOAD_GLOBAL'' (Some 0) (CStr ''w''),
         create_instruction ''RETURN_VALUE'' None CNone] [''w''] [],
      f_locals = Map.empty, f_globals = [''w'' \<mapsto> PTensor 7], f_builtins = Map.empty\<rparr>"

text \<open>
  A keyword call \<^verbatim>\<open>f(x)\<close> of an allowed global function whose tuple of keyword names
  is empty.
\<close>

definition ex_kw :: frame where
  "ex_kw =
     \<lparr>f_code = ex_code
        [create_instruction ''LOAD_GLOBAL'' (Some 0) (CStr ''f''),
         create_instruction ''LOAD_FAST'' (Some 0) (CStr ''x''),
         create_instruction ''LOAD_CONST'' (Some 0) (CTuple []),
         create_instruction ''CALL_FUNCTION_KW'' (Some 1) (CInt 1),
         create_instruction ''RETURN_VALUE'' None CNone] [''f''] [''x''],
      f_locals = [''x'' \<mapsto> PTensor 0],
      f_globals = [''f'' \<mapsto> PObj ''builtin_function_or_method''
                            [(''__call__'', PObj ''method-wrapper'' [])]],
      f_builtins = Map.empty\<rparr>"

section \<open>Basic facts\<close>

lemma bindE_Inr: "bindE m f = Inr y \<longleftrightarrow> (\<exists>x. m = Inr x \<and> f x = Inr y)"
  by (cases m) (simp_all add: bindE_def)

lemma bindE_simps [simp]: "bindE (Inr x) f = f x" "bindE (Inl e) f = Inl e"
  by (simp_all add: bindE_def)

lemma py_assert_Inr [simp]: "py_assert b = Inr u \<longleftrightarrow> b"
  by (simp add: py_assert_def)

lemma unimplemented_not_Inr [simp]: "unimplemented n \<noteq> Inr x"
  by (simp add: unimplemented_def)

lemma pop_eq:
  "pop st = (case stack st of [] \<Rightarrow> Inl IndexError | v # vs \<Rightarrow> Inr (v, st\<lparr>stack := vs\<rparr>))"
  by (simp add: pop_def)

lemma pops_eq:
  "pops n st =
     (if n \<le> length (stack st)
      then Inr (take n (stack st), st\<lparr>stack := drop n (stack st)\<rparr>)
      else Inl IndexError)"
proof (induction n arbitrary: st)
  case 0
  show ?case by simp
next
  case (Suc n)
  show ?case
  proof (cases "stack st")
    case Nil
    then show ?thesis by (simp add: pop_def)
  next
    case (Cons v vs)
    then show ?thesis by (simp add: pop_def Suc)
  qed
qed

lemma popn_eq:
  "popn n st =
     (if nat n \<le> length (stack st)
      then Inr (rev (take (nat n) (stack st)), st\<lparr>stack := drop (nat n) (stack st)\<rparr>)
      else Inl IndexError)"
  by (simp add: popn_def pops_eq)

lemma fixed_stack [simp]: "fixed_part (st\<lparr>stack := vs\<rparr>) = fixed_part st"
  by (simp add: fixed_part_def)

lemma fixed_push [simp]: "fixed_part (push v st) = fixed_part st"
  by (simp add: push_def)

lemma fixed_symbolic_locals [simp]: "fixed_part (st\<lparr>symbolic_locals := m\<rparr>) = fixed_part st"
  by (simp add: fixed_part_def)

lemma fixed_graph_append [simp]:
  "n_op n \<noteq> ''placeholder'' \<Longrightarrow> fixed_part (st\<lparr>graph := graph st @ [n]\<rparr>) = fixed_part st"
  by (simp add: fixed_part_def placeholders_def)

lemma fixed_fold_push [simp]: "fixed_part (fold push xs st) = fixed_part st"
  by (induction xs arbitrary: st) simp_all

lemma fixed_create_proxy [simp]:
  "kind \<noteq> ''placeholder'' \<Longrightarrow> fixed_part (snd (create_proxy kind tgt as kws st)) = fixed_part st"
  by (simp add: create_proxy_def)

lemma fixed_call_function:
  "call_function E fn args kwargs st = Inr st' \<Longrightarrow> fixed_part st' = fixed_part st"
  by (auto simp: call_function_def bindE_Inr split_beta split: symval.splits if_splits)


lemmas goal_splits =
  sum.split list.split option.split symval.split const.split pyval.split prod.split if_split

section \<open>What the handlers leave alone\<close>

lemma keeps_LOAD_FAST: "keeps LOAD_FAST"
  by (simp add: keeps_def LOAD_FAST_def split: goal_splits)

lemma keeps_STORE_FAST: "keeps STORE_FAST"
  by (simp add: keeps_def STORE_FAST_def pop_eq bindE_def split: goal_splits)

lemma keeps_LOAD_CONST: "keeps LOAD_CONST"
  by (simp add: keeps_def LOAD_CONST_def)

lemma keeps_LOAD_GLOBAL: "keeps LOAD_GLOBAL"
  by (simp add: keeps_def LOAD_GLOBAL_def load_builtin_def bindE_def unimplemented_def py_assert_def
           split: goal_splits)

lemma keeps_CALL_FUNCTION: "keeps CALL_FUNCTION"
  by (auto simp: keeps_def CALL_FUNCTION_def bindE_def pop_eq popn_eq
           split: goal_splits dest!: fixed_call_function)

lemma keeps_CALL_FUNCTION_EX: "keeps CALL_FUNCTION_EX"
  by (auto simp: keeps_def CALL_FUNCTION_EX_def bindE_def pop_eq unimplemented_def
           split: goal_splits dest!: fixed_call_function)

lemma keeps_CALL_FUNCTION_KW: "keeps CALL_FUNCTION_KW"
  by (auto simp: keeps_def CALL_FUNCTION_KW_def bindE_def pop_eq popn_eq Let_def
           split: goal_splits dest!: fixed_call_function)

lemma placeholders_append [simp]:
  "n_op n \<noteq> ''placeholder'' \<Longrightarrow> placeholders (g @ [n]) = placeholders g"
  by (simp add: placeholders_def)

lemma keeps_LOAD_ATTR: "keeps LOAD_ATTR"
  by (simp add: keeps_def LOAD_ATTR_def bindE_def pop_eq create_proxy_def unimplemented_def
           fixed_part_def push_def split: goal_splits)

lemma keeps_LOAD_METHOD: "keeps LOAD_METHOD"
  unfolding keeps_def
proof (intro allI)
  fix E inst st
  from keeps_LOAD_ATTR
  have "case LOAD_ATTR E inst st of Inl e \<Rightarrow> True | Inr st' \<Rightarrow> fixed_part st' = fixed_part st"
    unfolding keeps_def by blast
  then show "case LOAD_METHOD E inst st of Inl e \<Rightarrow> True
             | Inr st' \<Rightarrow> fixed_part st' = fixed_part st"
    by (simp add: LOAD_METHOD_def bindE_def split: sum.splits)
qed

lemma keeps_CALL_METHOD: "keeps CALL_METHOD"
  by (auto simp: keeps_def CALL_METHOD_def bindE_def pop_eq popn_eq py_assert_def
           split: goal_splits dest!: fixed_call_function)

lemma keeps_build_seq: "keeps (build_seq cls)"
  by (simp add: keeps_def build_seq_def bindE_def popn_eq split: goal_splits)

lemma keeps_BUILD_MAP: "keeps BUILD_MAP"
  by (simp add: keeps_def BUILD_MAP_def bindE_def popn_eq py_assert_def split: goal_splits)

lemma keeps_BUILD_CONST_KEY_MAP: "keeps BUILD_CONST_KEY_MAP"
  by (simp add: keeps_def BUILD_CONST_KEY_MAP_def bindE_def pop_eq popn_eq py_assert_def
           split: goal_splits)

lemma keeps_UNPACK_SEQUENCE: "keeps UNPACK_SEQUENCE"
  by (simp add: keeps_def UNPACK_SEQUENCE_def bindE_def pop_eq py_assert_def unimplemented_def
           split: goal_splits)

lemma keeps_shuffles:
  "keeps NOP" "keeps POP_TOP" "keeps ROT_TWO" "keeps ROT_THREE" "keeps ROT_FOUR"
  "keeps DUP_TOP" "keeps DUP_TOP_TWO"
  by (simp_all add: keeps_def NOP_def POP_TOP_def ROT_TWO_def ROT_THREE_def ROT_FOUR_def
        DUP_TOP_def DUP_TOP_TWO_def bindE_def pop_eq split: goal_splits)

lemma keeps_stack_op: "keeps (stack_op fn nargs)"
  by (simp add: keeps_def stack_op_def bindE_def popn_eq create_proxy_def unimplemented_def
        fixed_part_def push_def split: goal_splits)

lemmas keeps_handlers =
  keeps_LOAD_FAST keeps_STORE_FAST keeps_LOAD_CONST keeps_LOAD_GLOBAL keeps_CALL_FUNCTION
  keeps_CALL_FUNCTION_EX keeps_CALL_FUNCTION_KW keeps_LOAD_ATTR keeps_LOAD_METHOD
  keeps_CALL_METHOD keeps_build_seq keeps_BUILD_MAP keeps_BUILD_CONST_KEY_MAP
  keeps_UNPACK_SEQUENCE keeps_shuffles keeps_stack_op

lemma keeps_table:
  "\<forall>(nm, h) \<in> set handlers. nm = ''POP_JUMP_IF_FALSE'' \<or> nm = ''RETURN_VALUE'' \<or> keeps h"
  by (simp add: keeps_handlers handlers_def BUILD_TUPLE_def BUILD_SLICE_def BUILD_LIST_def)

lemma fixed_handler:
  assumes "map_of handlers nm = Some h"
    and "nm \<noteq> ''POP_JUMP_IF_FALSE''" and "nm \<noteq> ''RETURN_VALUE''"
    and "h E inst st = Inr st'"
  shows "fixed_part st' = fixed_part st"
proof -
  from assms(1) have "(nm, h) \<in> set handlers"
    by (rule map_of_SomeD)
  with keeps_table assms(2,3) have "keeps h"
    by auto
  with assms(4) show ?thesis
    by (auto simp: keeps_def split: sum.splits)
qed

lemma handler_PJIF: "map_of handlers ''POP_JUMP_IF_FALSE'' = Some POP_JUMP_IF_FALSE"
  by (simp add: handlers_def)

lemma handler_RV: "map_of handlers ''RETURN_VALUE'' = Some RETURN_VALUE"
  by (simp add: handlers_def)

lemma POP_JUMP_IF_FALSE_eq:
  "POP_JUMP_IF_FALSE E inst st =
     (case stack st of
        [] \<Rightarrow> Inl IndexError
      | v # vs \<Rightarrow>
          (case v of
             ConstantVariable c s g \<Rightarrow>
               if truthy c then Inr (st\<lparr>stack := vs, guards := guards st \<union> g\<rparr>)
               else jump inst (st\<lparr>stack := vs, guards := guards st \<union> g\<rparr>)
           | NoneValue \<Rightarrow> Inl AttributeError
           | _ \<Rightarrow> Inl (NotImplementedError (''POP_JUMP_IF_FALSE '' @ type_name v))))"
  by (simp add: POP_JUMP_IF_FALSE_def pop_eq unimplemented_def split: list.split symval.split)

lemma top_guards_ip [simp]: "top_guards (st\<lparr>instruction_pointer := i\<rparr>) = top_guards st"
  by (simp add: top_guards_def)

lemma PJIF_result:
  assumes "POP_JUMP_IF_FALSE E inst st = Inr st'"
  shows "instructions st' = instructions st \<and> graphargs st' = graphargs st \<and>
         graph st' = graph st \<and> code_options st' = code_options st \<and>
         guards st' = guards st \<union> top_guards st \<and>
         (instruction_pointer st' = instruction_pointer st \<or>
          (\<exists>t. target inst = Some t \<and> instruction_pointer st' = t))"
  using assms
  by (auto simp: POP_JUMP_IF_FALSE_eq jump_def top_guards_def
           split: list.splits symval.splits if_splits option.splits)

lemma mapE_load:
  "mapE (\<lambda>a. load a st) as = Inr lds \<Longrightarrow> lds = map (load_instruction (code_options st)) as"
proof (induction as arbitrary: lds)
  case Nil
  then show ?case by simp
next
  case (Cons a as)
  then show ?case
    by (cases a)
       (auto simp: bindE_Inr create_load_fast_def create_load_global_def load_instruction_def)
qed

lemma RETURN_VALUE_result:
  assumes "RETURN_VALUE E inst st = Inr st'"
  shows "instruction_pointer st' = instruction_pointer st \<and> graphargs st' = graphargs st \<and>
         placeholders (graph st') = placeholders (graph st) \<and>
         guards st' = guards st \<union> top_guards st \<and>
         code_options st' = (code_options st)
           \<lparr>co_names := co_names (code_options st) @ [unique_id E ''__translated_fn''],
            co_stacksize := length (graphargs st) + 1\<rparr> \<and>
         instructions st' =
           [create_instruction ''LOAD_GLOBAL''
              (Some (int (index_of (unique_id E ''__translated_fn'')
                 (co_names (code_options st) @ [unique_id E ''__translated_fn'']))))
              (CStr (unique_id E ''__translated_fn''))]
           @ map (load_instruction (code_options st')) (graphargs st)
           @ [create_instruction ''CALL_FUNCTION'' (Some (int (length (graphargs st))))
                (CInt (int (length (graphargs st)))),
              create_instruction ''RETURN_VALUE'' None CNone]"
  using assms
  by (auto simp: RETURN_VALUE_def pop_eq bindE_Inr create_proxy_def Let_def top_guards_def
                 create_load_global_def
           split: list.splits symval.splits if_splits dest!: mapE_load)

section \<open>Steps and runs\<close>

lemma step_Inr:
  assumes "step E st = Inr (st', c)"
  shows "instruction_pointer st < length (instructions st) \<and>
         (\<exists>h. map_of handlers (opname (current st)) = Some h \<and>
              h E (current st) (st\<lparr>instruction_pointer := instruction_pointer st + 1\<rparr>) = Inr st') \<and>
         c = (opname (current st) \<noteq> ''RETURN_VALUE'')"
  using assms
  by (auto simp: step_def current_def bindE_Inr unimplemented_def split: if_splits option.splits)

lemma fixed_part_ip:
  "fixed_part (st\<lparr>instruction_pointer := i\<rparr>) =
     (i, instructions st, guards st, graphargs st, placeholders (graph st), code_options st)"
  by (simp add: fixed_part_def)

lemma step_continue:
  assumes "step E st = Inr (st', True)"
  shows "instructions st' = instructions st \<and> graphargs st' = graphargs st \<and>
         placeholders (graph st') = placeholders (graph st) \<and>
         code_options st' = code_options st \<and>
         guards st' = guards st \<union>
           (if opname (current st) = ''POP_JUMP_IF_FALSE'' then top_guards st else {}) \<and>
         (instruction_pointer st' = Suc (instruction_pointer st) \<or>
          (\<exists>t. target (current st) = Some t \<and> instruction_pointer st' = t))"
proof -
  from step_Inr[OF assms] obtain h where
    h: "map_of handlers (opname (current st)) = Some h"
       "h E (current st) (st\<lparr>instruction_pointer := instruction_pointer st + 1\<rparr>) = Inr st'"
    and nr: "opname (current st) \<noteq> ''RETURN_VALUE''"
    by auto
  show ?thesis
  proof (cases "opname (current st) = ''POP_JUMP_IF_FALSE''")
    case True
    with h have "POP_JUMP_IF_FALSE E (current st)
        (st\<lparr>instruction_pointer := instruction_pointer st + 1\<rparr>) = Inr st'"
      by (simp add: handler_PJIF)
    from PJIF_result[OF this] True show ?thesis
      by auto
  next
    case False
    from fixed_handler[OF h(1) False nr h(2)] False show ?thesis
      by (simp add: fixed_part_ip) (simp add: fixed_part_def)
  qed
qed

lemma step_return:
  assumes "step E st = Inr (st', False)"
  shows "opname (current st) = ''RETURN_VALUE'' \<and>
         RETURN_VALUE E (current st) (st\<lparr>instruction_pointer := instruction_pointer st + 1\<rparr>)
           = Inr st'"
  using step_Inr[OF assms] by (auto simp: handler_RV)

lemma run_Suc_Inr:
  "run E (Suc n) st = Some (Inr st') \<longleftrightarrow>
     (step E st = Inr (st', False) \<or> (\<exists>s. step E st = Inr (s, True) \<and> run E n s = Some (Inr st')))"
  by (auto split: sum.splits)

lemma stepped_Suc:
  "stepped E (Suc n) st =
     (if instruction_pointer st < length (instructions st) then
        st # (case step E st of Inl e \<Rightarrow> [] | Inr (s, c) \<Rightarrow> if c then stepped E n s else [])
      else [])"
  by simp

text \<open>More fuel never changes a result.\<close>

lemma run_mono: "run E n st = Some r \<Longrightarrow> run E (n + k) st = Some r"
proof (induction n arbitrary: st)
  case 0
  then show ?case by simp
next
  case (Suc n)
  then show ?case
    by (auto split: sum.splits if_splits)
qed

lemma run_stepped_error:
  "s \<in> set (stepped E n st) \<Longrightarrow> step E s = Inl e \<Longrightarrow> run E n st = Some (Inl e)"
proof (induction n arbitrary: st)
  case 0
  then show ?case by simp
next
  case (Suc n)
  then show ?case
    by (auto split: sum.splits if_splits)
qed

lemma run_guards:
  "run E n st = Some (Inr st') \<Longrightarrow>
   guards st' = guards st
      \<union> \<Union> (top_guards ` set (stepped_onto ''RETURN_VALUE'' (stepped E n st)))
      \<union> \<Union> (top_guards ` set (stepped_onto ''POP_JUMP_IF_FALSE'' (stepped E n st)))"
proof (induction n arbitrary: st)
  case 0
  then show ?case by simp
next
  case (Suc n)
  from Suc.prems consider
      (ret) "step E st = Inr (st', False)"
    | (cont) s where "step E st = Inr (s, True)" "run E n s = Some (Inr st')"
    unfolding run_Suc_Inr by blast
  then show ?case
  proof cases
    case ret
    from step_Inr[OF ret] have ip: "instruction_pointer st < length (instructions st)"
      by simp
    from step_return[OF ret] RETURN_VALUE_result
    have "opname (current st) = ''RETURN_VALUE''" "guards st' = guards st \<union> top_guards st"
      by fastforce+
    with ret ip show ?thesis
      by (simp add: stepped_onto_def)
  next
    case cont
    from step_Inr[OF cont(1)] have ip: "instruction_pointer st < length (instructions st)"
      and nr: "opname (current st) \<noteq> ''RETURN_VALUE''"
      by simp_all
    from step_continue[OF cont(1)]
    have g: "guards s = guards st \<union>
           (if opname (current st) = ''POP_JUMP_IF_FALSE'' then top_guards st else {})"
      by simp
    from Suc.IH[OF cont(2)] g ip nr cont(1) show ?thesis
      by (auto simp: stepped_onto_def)
  qed
qed

section \<open>The constructor\<close>

lemma set_insert_after [simp]: "set (insert_after x new g) = insert new (set g)"
  by (induction g) auto

lemma length_insert_after [simp]: "length (insert_after x new g) = Suc (length g)"
  by (induction g) auto

lemma distinct_insert_after:
  "distinct (map n_id g) \<Longrightarrow> n_id new \<notin> n_id ` set g \<Longrightarrow>
   distinct (map n_id (insert_after x new g))"
  by (induction g) auto

lemma filter_insert_after:
  assumes "distinct (map n_id g)" and "filter P g \<noteq> []" and "P new"
  shows "filter P (insert_after (last (filter P g)) new g) = filter P g @ [new]"
  using assms(1,2)
proof (induction g)
  case Nil
  then show ?case by simp
next
  case (Cons y ys)
  define x where "x = last (filter P (y # ys))"
  have "x \<in> set (filter P (y # ys))"
    unfolding x_def using Cons.prems(2) by (rule last_in_set)
  then have xin: "x \<in> set (y # ys)" and px: "P x"
    by (simp_all only: set_filter mem_Collect_eq)
  have xlast: "filter P ys \<noteq> [] \<Longrightarrow> x = last (filter P ys)"
    by (simp add: x_def)
  have xys: "filter P ys \<noteq> [] \<Longrightarrow> x \<in> set ys"
  proof -
    assume ne: "filter P ys \<noteq> []"
    then have "last (filter P ys) \<in> set (filter P ys)" by (rule last_in_set)
    with xlast[OF ne] show "x \<in> set ys" by simp
  qed
  have goal: "filter P (insert_after x new (y # ys)) = filter P (y # ys) @ [new]"
  proof (cases "n_id y = n_id x")
    case True
    have "x = y"
    proof (rule ccontr)
      assume "x \<noteq> y"
      with xin have "x \<in> set ys" by simp
      with True Cons.prems(1) show False by (auto simp: image_iff)
    qed
    have "filter P ys = []"
    proof (rule ccontr)
      assume "filter P ys \<noteq> []"
      from xys[OF this] \<open>x = y\<close> Cons.prems(1) show False by auto
    qed
    with True px \<open>x = y\<close> assms(3) show ?thesis by simp
  next
    case False
    then have "x \<noteq> y" by auto
    with xin have "x \<in> set ys" by simp
    with px have ne: "filter P ys \<noteq> []" by (auto simp: filter_empty_conv)
    from Cons.prems(1) have "distinct (map n_id ys)" by simp
    from Cons.IH[OF this ne] False xlast[OF ne] show ?thesis by simp
  qed
  then show ?case by (simp only: x_def)
qed

lemma placeholders_create_graph_input:
  assumes "distinct (map n_id (graph st))"
  shows "placeholders (graph (snd (create_graph_input name st))) =
           placeholders (graph st) @
           [\<lparr>n_id = length (graph st), n_op = ''placeholder'',
             n_target = TName (name @ ''_'' @ str_nat (cnt st)), n_args = [], n_kwargs = []\<rparr>]"
  using filter_insert_after[OF assms, of "\<lambda>n. n_op n = ''placeholder''"]
  by (simp add: create_graph_input_def Let_def placeholders_def)

lemma graph_ids_ok_create_graph_input:
  assumes "graph_ids_ok (graph st)"
  shows "graph_ids_ok (graph (snd (create_graph_input name st)))"
  using assms
  by (auto simp: graph_ids_ok_def create_graph_input_def Let_def list_all_iff
           intro!: distinct_insert_after)

lemma create_graph_input_rest:
  "create_graph_input name st = (p, st') \<Longrightarrow>
   instructions st' = instructions st \<and> instruction_pointer st' = instruction_pointer st \<and>
   guards st' = guards st \<and> code_options st' = code_options st \<and> stack st' = stack st \<and>
   graphargs st' = graphargs st \<and> symbolic_locals st' = symbolic_locals st \<and>
   tr_f_globals st' = tr_f_globals st"
  by (auto simp: create_graph_input_def Let_def)

lemma wrap_local_rest:
  assumes "wrap_local name v st = Inr (sv, st')"
  shows "instructions st' = instructions st \<and> instruction_pointer st' = instruction_pointer st \<and>
         guards st' = guards st \<and> code_options st' = code_options st \<and> stack st' = stack st \<and>
         symbolic_locals st' = symbolic_locals st \<and> tr_f_globals st' = tr_f_globals st \<and>
         graphargs st' = graphargs st @ (if tensor_bound [name \<mapsto> v] name then [LocalArg name] else [])"
  using assms
  by (cases v)
     (auto simp: wrap_local_def create_graph_input_def Let_def tensor_bound_def unimplemented_def)

lemma wrap_local_inv:
  assumes "wrap_local name v st = Inr (sv, st')" and "init_inv st"
  shows "init_inv st'"
proof (cases v)
  case (PTensor t)
  let ?st1 = "st\<lparr>graphargs := graphargs st @ [LocalArg name]\<rparr>"
  let ?new = "\<lparr>n_id = length (graph st), n_op = ''placeholder'',
             n_target = TName (name @ ''_'' @ str_nat (cnt st)), n_args = [], n_kwargs = []\<rparr>"
  from assms(1) PTensor have st': "st' = snd (create_graph_input name ?st1)"
    by (auto simp: wrap_local_def split: prod.splits)
  from assms(2) have ok: "graph_ids_ok (graph ?st1)"
    and l2: "list_all2 placeholder_for (graphargs st) (placeholders (graph st))"
    and so: "sorted_wrt (<) (map n_id (placeholders (graph st)))"
    by (simp_all add: init_inv_def)
  then have d: "distinct (map n_id (graph ?st1))" by (simp add: graph_ids_ok_def)
  have ph: "placeholders (graph st') = placeholders (graph st) @ [?new]"
    using placeholders_create_graph_input[OF d, of name] by (simp add: st')
  have ga: "graphargs st' = graphargs st @ [LocalArg name]"
    by (simp add: st' create_graph_input_def Let_def)
  have pf: "placeholder_for (LocalArg name) ?new"
    by (auto simp: placeholder_for_def)
  have lt: "\<forall>n \<in> set (placeholders (graph st)). n_id n < length (graph st)"
    using ok by (auto simp: graph_ids_ok_def list_all_iff placeholders_def)
  show ?thesis
    unfolding init_inv_def
    using graph_ids_ok_create_graph_input[OF ok, of name] l2 so pf lt
    by (simp add: st'[symmetric] ph ga list_all2_appendI sorted_wrt_append)
next
  case (PModule c attrs)
  with assms show ?thesis by (auto simp: wrap_local_def init_inv_def)
qed (use assms in \<open>auto simp: wrap_local_def init_inv_def unimplemented_def\<close>)

lemma wrap_locals_facts:
  assumes "wrap_locals fl ks st = Inr st'"
  shows "instructions st' = instructions st \<and> instruction_pointer st' = instruction_pointer st \<and>
         guards st' = guards st \<and> code_options st' = code_options st \<and> stack st' = stack st \<and>
         tr_f_globals st' = tr_f_globals st \<and>
         graphargs st' = graphargs st @ map LocalArg (filter (tensor_bound fl) ks) \<and>
         (init_inv st \<longrightarrow> init_inv st')"
  using assms
proof (induction ks arbitrary: st)
  case Nil
  then show ?case by simp
next
  case (Cons k ks)
  show ?case
  proof (cases "fl k")
    case None
    with Cons show ?thesis by (simp add: tensor_bound_def)
  next
    case (Some v)
    with Cons.prems obtain sv st1 where
      w: "wrap_local k v st = Inr (sv, st1)"
      and r: "wrap_locals fl ks (st1\<lparr>symbolic_locals := (symbolic_locals st1)(CStr k \<mapsto> sv)\<rparr>) = Inr st'"
      by (auto simp: bindE_Inr)
    have inv: "init_inv st \<longrightarrow> init_inv (st1\<lparr>symbolic_locals := (symbolic_locals st1)(CStr k \<mapsto> sv)\<rparr>)"
      using wrap_local_inv[OF w] by (simp add: init_inv_def)
    from wrap_local_rest[OF w] Cons.IH[OF r] inv Some show ?thesis
      by (simp add: tensor_bound_def)
  qed
qed


lemma InstructionTracer_facts:
  assumes "InstructionTracer insts fl fg fb opts = Inr st0"
  shows "instructions st0 = insts" "instruction_pointer st0 = 0" "guards st0 = {}"
        "code_options st0 = opts" "stack st0 = []" "tr_f_globals st0 = fg"
        "graphargs st0 = map LocalArg (filter (tensor_bound fl) (co_varnames opts))"
        "init_inv st0"
proof -
  let ?init = "\<lparr>graph = [], instructions = insts, stack = [], tr_f_globals = fg,
        tr_f_builtins = fb, instruction_pointer = 0, cnt = 0, graphargs = [],
        code_options = opts, nn_modules = [], guards = {}, symbolic_locals = Map.empty\<rparr>"
  have i: "init_inv ?init"
    by (simp add: init_inv_def graph_ids_ok_def placeholders_def)
  from assms have w: "wrap_locals fl (co_varnames opts) ?init = Inr st0"
    by (simp add: InstructionTracer_def)
  from wrap_locals_facts[OF w] i
  show "instructions st0 = insts" "instruction_pointer st0 = 0" "guards st0 = {}"
        "code_options st0 = opts" "stack st0 = []" "tr_f_globals st0 = fg"
        "graphargs st0 = map LocalArg (filter (tensor_bound fl) (co_varnames opts))"
        "init_inv st0"
    by simp_all
qed

section \<open>Forward jumps\<close>

lemma forward_jumpsD:
  assumes "forward_jumps insts" and "i < length insts" and "target (insts ! i) = Some t"
  shows "i < t"
proof -
  from assms(2) have "(i, insts ! i) \<in> set (enumerate 0 insts)"
    by (simp add: in_set_enumerate_eq)
  with assms(1) have "case target (insts ! i) of None \<Rightarrow> True | Some t \<Rightarrow> i < t"
    by (auto simp: forward_jumps_def list_all_iff)
  with assms(3) show ?thesis by simp
qed

lemma step_increases:
  assumes "step E st = Inr (st', c)" and "forward_jumps (instructions st)"
  shows "instruction_pointer st < instruction_pointer st'"
proof (cases c)
  case True
  from step_Inr[OF assms(1)] have ip: "instruction_pointer st < length (instructions st)"
    by simp
  from assms(1) True step_continue[of E st st']
  have "instruction_pointer st' = Suc (instruction_pointer st) \<or>
        (\<exists>t. target (current st) = Some t \<and> instruction_pointer st' = t)"
    by simp
  with forward_jumpsD[OF assms(2) ip] show ?thesis
    by (auto simp: current_def)
next
  case False
  with assms(1) have "step E st = Inr (st', False)" by simp
  from step_return[OF this]
  have "RETURN_VALUE E (current st)
          (st\<lparr>instruction_pointer := instruction_pointer st + 1\<rparr>) = Inr st'"
    by simp
  from RETURN_VALUE_result[OF this] show ?thesis by simp
qed

lemma run_terminates:
  assumes "forward_jumps (instructions st)"
    and "length (instructions st) - instruction_pointer st < n"
  shows "\<exists>r. run E n st = Some r"
  using assms
proof (induction n arbitrary: st)
  case 0
  then show ?case by simp
next
  case (Suc n)
  show ?case
  proof (cases "step E st")
    case (Inl e)
    then show ?thesis by simp
  next
    case (Inr p)
    obtain s c where p: "p = (s, c)" by (cases p)
    show ?thesis
    proof (cases c)
      case False
      with Inr p show ?thesis by simp
    next
      case True
      with Inr p have st: "step E st = Inr (s, True)" by simp
      from step_continue[OF st] have same: "instructions s = instructions st" by simp
      from step_Inr[OF st] have ip: "instruction_pointer st < length (instructions st)" by simp
      from step_increases[OF st Suc.prems(1)] Suc.prems(2) ip
      have "length (instructions st) - instruction_pointer s < n" by arith
      with same have "length (instructions s) - instruction_pointer s < n" by simp
      from Suc.IH[OF _ this] Suc.prems(1) same st show ?thesis by simp
    qed
  qed
qed

lemma stepped_bound:
  assumes "forward_jumps (instructions st)"
  shows "length (stepped E n st) \<le> length (instructions st) - instruction_pointer st"
  using assms
proof (induction n arbitrary: st)
  case 0
  then show ?case by simp
next
  case (Suc n)
  show ?case
  proof (cases "instruction_pointer st < length (instructions st)")
    case False
    then show ?thesis by simp
  next
    case ip: True
    show ?thesis
    proof (cases "step E st")
      case (Inl e)
      with ip show ?thesis by simp
    next
      case (Inr p)
      obtain s c where p: "p = (s, c)" by (cases p)
      show ?thesis
      proof (cases c)
        case False
        with Inr p ip show ?thesis by simp
      next
        case True
        with Inr p have st: "step E st = Inr (s, True)" by simp
        from step_continue[OF st] have same: "instructions s = instructions st" by simp
        from Suc.IH[of s] Suc.prems same
        have "length (stepped E n s) \<le> length (instructions st) - instruction_pointer s"
          by simp
        with step_increases[OF st Suc.prems] st ip show ?thesis by simp
      qed
    qed
  qed
qed

section \<open>Single handlers\<close>

lemma fold_push_rev: "fold push (rev items) st = st\<lparr>stack := items @ stack st\<rparr>"
proof -
  have "fold push xs st = st\<lparr>stack := rev xs @ stack st\<rparr>" for xs
    by (induction xs arbitrary: st) (simp_all add: push_def)
  from this[of "rev items"] show ?thesis by simp
qed

lemma UNPACK_SEQUENCE_eq:
  "UNPACK_SEQUENCE E inst st =
     (case stack st of
        [] \<Rightarrow> Inl IndexError
      | seq # vs \<Rightarrow>
          (case seq of
             ListVariable cls items s g \<Rightarrow>
               if CInt (int (length items)) = key_norm (argval inst)
               then Inr (st\<lparr>stack := items @ vs\<rparr>) else Inl AssertionError
           | _ \<Rightarrow> Inl (NotImplementedError (''UNPACK_SEQUENCE '' @ type_name seq))))"
  by (simp add: UNPACK_SEQUENCE_def pop_eq py_assert_def unimplemented_def fold_push_rev
           split: list.split symval.split)

lemma LOAD_GLOBAL_tensor:
  assumes "argval inst = CStr name" and "tr_f_globals st name = Some (PTensor t)"
  shows "LOAD_GLOBAL E inst st =
           (if is_allowed E (PTensor t)
            then Inr (push (AllowedFunctionOrModuleVariable (PTensor t) YES
                              {Guard name GLOBAL FUNCTION_MATCH}) st)
            else Inl AssertionError)"
  using assms by (simp add: LOAD_GLOBAL_def)

lemma slice_zero [simp]: "slice_to 0 xs = []" "slice_from 0 xs = xs"
  by (simp_all add: slice_to_def slice_from_def slice_bound_def)

lemma CALL_FUNCTION_KW_empty_names:
  assumes "stack st = ConstantVariable (CTuple []) s g # rev args @ fn # rest"
    and "argval inst = CInt (int (length args))"
  shows "CALL_FUNCTION_KW E inst st = call_function E fn [] [] (st\<lparr>stack := rest\<rparr>)"
  using assms
  by (simp add: CALL_FUNCTION_KW_def pop_eq popn_eq dict_zip_def Let_def py_assert_def)

section \<open>The result of a run and the entry points\<close>

lemma run_final:
  assumes "run E n st = Some (Inr st')"
  shows "graphargs st' = graphargs st \<and>
         placeholders (graph st') = placeholders (graph st) \<and>
         code_options st' = (code_options st)
           \<lparr>co_names := co_names (code_options st) @ [unique_id E ''__translated_fn''],
            co_stacksize := length (graphargs st) + 1\<rparr> \<and>
         instructions st' = rewritten E st'"
  using assms
proof (induction n arbitrary: st)
  case 0
  then show ?case by simp
next
  case (Suc n)
  from Suc.prems consider
      (ret) "step E st = Inr (st', False)"
    | (cont) s where "step E st = Inr (s, True)" "run E n s = Some (Inr st')"
    unfolding run_Suc_Inr by blast
  then show ?case
  proof cases
    case ret
    from step_return[OF ret]
    have "RETURN_VALUE E (current st)
            (st\<lparr>instruction_pointer := instruction_pointer st + 1\<rparr>) = Inr st'"
      by simp
    from RETURN_VALUE_result[OF this] show ?thesis
      by (simp add: rewritten_def)
  next
    case cont
    from step_continue[OF cont(1)] Suc.IH[OF cont(2)] show ?thesis
      by simp
  qed
qed

lemma stepped_in_range:
  "s \<in> set (stepped E n st) \<Longrightarrow> instruction_pointer s < length (instructions s)"
proof (induction n arbitrary: st)
  case 0
  then show ?case by simp
next
  case (Suc n)
  then show ?case
    by (auto split: if_splits sum.splits)
qed

lemma stepped_nonempty: "run E n st = Some (Inr st') \<Longrightarrow> stepped E n st \<noteq> []"
  by (cases n) (auto simp: step_def split: sum.splits if_splits)

lemma stepped_return_last:
  assumes "run E n st = Some (Inr st')"
  shows "stepped_onto ''RETURN_VALUE'' (stepped E n st) = [last (stepped E n st)]"
  using assms
proof (induction n arbitrary: st)
  case 0
  then show ?case by simp
next
  case (Suc n)
  from Suc.prems consider
      (ret) "step E st = Inr (st', False)"
    | (cont) s where "step E st = Inr (s, True)" "run E n s = Some (Inr st')"
    unfolding run_Suc_Inr by blast
  then show ?case
  proof cases
    case ret
    from step_Inr[OF ret] ret show ?thesis
      by (simp add: stepped_onto_def)
  next
    case cont
    from step_Inr[OF cont(1)] cont(1) stepped_nonempty[OF cont(2)] Suc.IH[OF cont(2)]
    show ?thesis
      by (simp add: stepped_onto_def)
  qed
qed


lemma transform_Inr:
  "transform E fuel fr insts opts = Some (Inr tr) \<longleftrightarrow>
     (\<exists>st0. InstructionTracer insts (f_locals fr) (f_globals fr) (f_builtins fr) opts = Inr st0 \<and>
            run E fuel st0 = Some (Inr tr))"
  by (auto simp: transform_def split: sum.splits)

lemma convert_frame_assert_Inr:
  assumes "\<not> prefix ''<eval_with_key>'' (co_filename (f_code fr))"
    and "convert_frame_assert E fuel fr = Some (Inr r)"
  shows "\<exists>st0 st'.
           InstructionTracer (co_instructions (f_code fr)) (f_locals fr) (f_globals fr)
             (f_builtins fr) (co_options (f_code fr)) = Inr st0 \<and>
           run E fuel st0 = Some (Inr st') \<and>
           r = \<lparr>gc_code = (f_code fr)\<lparr>co_instructions := instructions st',
                                      co_options := code_options st'\<rparr>,
                gc_guards = guards st'\<rparr>"
  using assms
  by (auto simp: convert_frame_assert_def transform_code_object_def transform_Inr GuardedCode2_def
           split: sum.splits option.splits)

lemma convert_frame_assert_error:
  assumes "\<not> prefix ''<eval_with_key>'' (co_filename (f_code fr))"
    and "debug_checks E (f_code fr) = Inr ()"
    and "InstructionTracer (co_instructions (f_code fr)) (f_locals fr) (f_globals fr)
             (f_builtins fr) (co_options (f_code fr)) = Inr st0"
    and "run E fuel st0 = Some (Inl e)"
  shows "convert_frame_assert E fuel fr = Some (Inl e)"
  using assms
  by (simp add: convert_frame_assert_def transform_code_object_def transform_def)

lemma convert_frame_of_error:
  "convert_frame_assert E fuel fr = Some (Inl e) \<Longrightarrow>
   convert_frame E fuel fr = Some (Inr \<lparr>gc_code = f_code fr, gc_guards = {}\<rparr>)"
  by (cases e) (simp_all add: convert_frame_def GuardedCode1_def)

lemma insert_after_split:
  "n_id x \<notin> n_id ` set pre \<Longrightarrow> insert_after x new (pre @ x # post) = pre @ x # new # post"
  by (induction pre) auto

lemma create_graph_input_after_last:
  assumes "distinct (map n_id (graph st))" and "graph st = pre @ x # post"
    and "n_op x = ''placeholder''" and "placeholders post = []"
  shows "graph (snd (create_graph_input name st)) = pre @ x # new_placeholder name st # post"
proof -
  from assms(2,3,4) have l: "last (placeholders (graph st)) = x" and ne: "placeholders (graph st) \<noteq> []"
    by (simp_all add: placeholders_def)
  from assms(1,2) have "n_id x \<notin> n_id ` set pre" by auto
  from insert_after_split[OF this] l ne assms(2) show ?thesis
    by (simp add: create_graph_input_def Let_def new_placeholder_def)
qed

lemma create_graph_input_front:
  "placeholders (graph st) = [] \<Longrightarrow>
   graph (snd (create_graph_input name st)) = new_placeholder name st # graph st"
  by (simp add: create_graph_input_def Let_def new_placeholder_def)

lemma has_handler_None: "\<not> has_handler name \<Longrightarrow> map_of handlers name = None"
  by (simp add: has_handler_def map_of_eq_None_iff)

lemma step_handled:
  assumes "instruction_pointer st < length (instructions st)"
    and "map_of handlers (opname (current st)) = Some h"
  shows "step E st =
           bindE (h E (current st) (st\<lparr>instruction_pointer := instruction_pointer st + 1\<rparr>))
             (\<lambda>st'. Inr (st', opname (current st) \<noteq> ''RETURN_VALUE''))"
  using assms by (simp add: step_def current_def)

lemma stepped_instructions:
  "s \<in> set (stepped E n st) \<Longrightarrow> instructions s = instructions st"
proof (induction n arbitrary: st)
  case 0
  then show ?case by simp
next
  case (Suc n)
  show ?case
  proof (cases "s = st")
    case True
    then show ?thesis by simp
  next
    case False
    show ?thesis
    proof (cases "step E st")
      case (Inl e)
      with Suc.prems False show ?thesis by (simp split: if_splits)
    next
      case (Inr p)
      obtain s1 c where p: "p = (s1, c)" by (cases p)
      with Inr Suc.prems False have c: "c" and m: "s \<in> set (stepped E n s1)"
        by (auto split: if_splits)
      with Inr p have st: "step E st = Inr (s1, True)" by simp
      from Suc.IH[OF m] step_continue[OF st] show ?thesis by simp
    qed
  qed
qed

lemma convert_frame_abort:
  assumes "traced fr" and "debug_checks E (f_code fr) = Inr ()" and "tracer_of fr = Inr st0"
    and "s \<in> set (stepped E fuel st0)" and "step E s = Inl e"
  shows "run E fuel st0 = Some (Inl e) \<and> convert_frame_assert E fuel fr = Some (Inl e) \<and>
         convert_frame E fuel fr = Some (Inr (original fr))"
proof -
  from run_stepped_error[OF assms(4,5)] have r: "run E fuel st0 = Some (Inl e)" .
  from assms(1,3) convert_frame_assert_error[OF _ assms(2) _ r]
  have "convert_frame_assert E fuel fr = Some (Inl e)"
    by (simp add: traced_def tracer_of_def)
  with r convert_frame_of_error[OF this] show ?thesis
    by (simp add: original_def)
qed

lemma handler_lookups:
  "map_of handlers ''UNPACK_SEQUENCE'' = Some UNPACK_SEQUENCE"
  "map_of handlers ''LOAD_GLOBAL'' = Some LOAD_GLOBAL"
  "map_of handlers ''CALL_FUNCTION_KW'' = Some CALL_FUNCTION_KW"
  by (simp_all add: handlers_def)



lemma tracer_of_wrap_locals:
  "tracer_of fr = Inr st0 \<Longrightarrow>
   wrap_locals (f_locals fr) (co_varnames (co_options (f_code fr)))
     \<lparr>graph = [], instructions = co_instructions (f_code fr), stack = [],
      tr_f_globals = f_globals fr, tr_f_builtins = f_builtins fr, instruction_pointer = 0,
      cnt = 0, graphargs = [], code_options = co_options (f_code fr), nn_modules = [],
      guards = {}, symbolic_locals = Map.empty\<rparr> = Inr st0"
  by (simp add: tracer_of_def InstructionTracer_def)

lemma final_tracer_Some:
  "final_tracer E fuel fr = Some st' \<longleftrightarrow>
     (\<exists>st0. tracer_of fr = Inr st0 \<and> run E fuel st0 = Some (Inr st'))"
  by (auto simp: final_tracer_def split: sum.splits option.splits)

lemma steps_of_Inr: "tracer_of fr = Inr st0 \<Longrightarrow> steps_of E fuel fr = stepped E fuel st0"
  by (simp add: steps_of_def)

lemma tracer_of_projr: "\<not> isl (tracer_of fr) \<Longrightarrow> tracer_of fr = Inr (projr (tracer_of fr))"
  by simp

lemma case_Some_Inr:
  "(case m of Some (Inr r) \<Rightarrow> P r | _ \<Rightarrow> False) \<Longrightarrow> \<exists>r. m = Some (Inr r) \<and> P r"
  by (auto split: option.splits sum.splits)

section \<open>The claims\<close>

text \<open>
  C1. \<^verbatim>\<open>convert_frame\<close> never lets an exception out: its result is never an exception,
  and whenever \<^verbatim>\<open>convert_frame_assert\<close> (or the trace inside it) raises, be it the
  \<^verbatim>\<open>NotImplementedError\<close> of \<^verbatim>\<open>unimplemented\<close> or any other exception, the result is
  the frame's own code object with an empty guard set.
\<close>

theorem convert_frame_never_raises:
  "convert_frame E fuel fr \<noteq> Some (Inl e) \<and>
   (convert_frame_assert E fuel fr = Some (Inl e) \<longrightarrow>
      convert_frame E fuel fr = Some (Inr (original fr))) \<and>
   (transform E fuel fr (co_instructions (f_code fr)) (co_options (f_code fr)) = Some (Inl e) \<longrightarrow>
      convert_frame E fuel fr = Some (Inr (original fr)))"
proof (intro conjI impI)
  show "convert_frame E fuel fr \<noteq> Some (Inl e)"
    by (simp add: convert_frame_def split: option.splits sum.splits error.splits)
  show "convert_frame E fuel fr = Some (Inr (original fr))"
    if "convert_frame_assert E fuel fr = Some (Inl e)"
    using convert_frame_of_error[OF that] by (simp add: original_def)
  show "convert_frame E fuel fr = Some (Inr (original fr))"
    if t: "transform E fuel fr (co_instructions (f_code fr)) (co_options (f_code fr)) = Some (Inl e)"
  proof (cases "convert_frame_assert E fuel fr")
    case None
    with t show ?thesis
      by (simp add: convert_frame_assert_def transform_code_object_def
               split: if_splits sum.splits)
  next
    case (Some x)
    show ?thesis
    proof (cases x)
      case (Inl e')
      with Some convert_frame_of_error[of E fuel fr e'] show ?thesis
        by (simp add: original_def)
    next
      case (Inr r)
      with Some t have "r = GuardedCode1 (f_code fr)"
        by (simp add: convert_frame_assert_def transform_code_object_def
                 split: if_splits sum.splits)
      with Some Inr show ?thesis
        by (simp add: convert_frame_def original_def GuardedCode1_def)
    qed
  qed
qed

theorem convert_frame_never_raises_witness:
  "convert_frame std_env 10 ex_str = Some (Inr (original ex_str)) \<and>
   convert_frame std_env 10 ex_global = Some (Inr (original ex_global))"
proof -
  have 1: "convert_frame_assert std_env 10 ex_str =
             Some (Inl (NotImplementedError ''wrap_local: str''))"
    by code_simp
  have 2: "convert_frame_assert std_env 10 ex_global = Some (Inl AssertionError)"
    by code_simp
  from convert_frame_never_raises[of std_env 10 ex_str "NotImplementedError ''wrap_local: str''"]
    convert_frame_never_raises[of std_env 10 ex_global AssertionError] 1 2
  show ?thesis by blast
qed

text \<open>
  C2. After a successful trace the instruction stream is: load the compiled callable,
  load the captured arguments in the order of \<^verbatim>\<open>graphargs\<close>, call with that many
  arguments, return. The placeholders of the graph, in graph order, are the placeholders
  of these arguments in the same order, and their creation stamps increase along the
  graph: graph order is creation order. The order is that of \<^verbatim>\<open>co_varnames\<close>; the table
  of locals only decides which names are captured. \<^verbatim>\<open>create_graph_input\<close> puts the new
  placeholder right behind the last placeholder, or in front of the graph when there is
  none.
\<close>

theorem captured_argument_order:
  assumes "tracer_of fr = Inr st0"
    and "run E fuel st0 = Some (Inr st')"
  shows "instructions st' =
           [create_instruction ''LOAD_GLOBAL''
              (Some (int (index_of (unique_id E ''__translated_fn'') (co_names (code_options st')))))
              (CStr (unique_id E ''__translated_fn''))]
           @ map (load_instruction (code_options st')) (graphargs st')
           @ [create_instruction ''CALL_FUNCTION'' (Some (int (length (graphargs st'))))
                (CInt (int (length (graphargs st')))),
              create_instruction ''RETURN_VALUE'' None CNone]
         \<and> list_all2 placeholder_for (graphargs st') (placeholders (graph st'))
         \<and> sorted_wrt (<) (map n_id (placeholders (graph st')))
         \<and> graphargs st' =
             map LocalArg (filter (tensor_bound (f_locals fr)) (co_varnames (co_options (f_code fr))))
         \<and> (distinct (map n_id (graph st)) \<and> graph st = pre @ x # post \<and>
              n_op x = ''placeholder'' \<and> placeholders post = [] \<longrightarrow>
            graph (snd (create_graph_input name st)) = pre @ x # new_placeholder name st # post)
         \<and> (placeholders (graph st) = [] \<longrightarrow>
            graph (snd (create_graph_input name st)) = new_placeholder name st # graph st)"
proof -
  from InstructionTracer_facts[OF assms(1)[unfolded tracer_of_def]]
  have i: "init_inv st0"
    and g: "graphargs st0 =
      map LocalArg (filter (tensor_bound (f_locals fr)) (co_varnames (co_options (f_code fr))))"
    by simp_all
  from run_final[OF assms(2)] i g
  have "instructions st' = rewritten E st'"
    and "list_all2 placeholder_for (graphargs st') (placeholders (graph st'))"
    and "sorted_wrt (<) (map n_id (placeholders (graph st')))"
    and "graphargs st' =
      map LocalArg (filter (tensor_bound (f_locals fr)) (co_varnames (co_options (f_code fr))))"
    by (simp_all add: init_inv_def)
  moreover have "distinct (map n_id (graph st)) \<and> graph st = pre @ x # post \<and>
              n_op x = ''placeholder'' \<and> placeholders post = [] \<longrightarrow>
            graph (snd (create_graph_input name st)) = pre @ x # new_placeholder name st # post"
    using create_graph_input_after_last[of st pre x post name] by blast
  moreover have "placeholders (graph st) = [] \<longrightarrow>
            graph (snd (create_graph_input name st)) = new_placeholder name st # graph st"
    using create_graph_input_front[of st name] by blast
  ultimately show ?thesis
    by (simp only: rewritten_def simp_thms)
qed

theorem captured_argument_order_witness:
  "(case final_tracer std_env 10 ex_add of
     None \<Rightarrow> False
   | Some st' \<Rightarrow>
       graphargs st' = [LocalArg ''x'', LocalArg ''y''] \<and>
       map argval (instructions st') =
         [CStr ''__translated_fn_0'', CStr ''x'', CStr ''y'', CInt 2, CNone] \<and>
       map n_target (placeholders (graph st')) = [TName ''x_0'', TName ''y_1''] \<and>
       list_all2 placeholder_for (graphargs st') (placeholders (graph st')) \<and>
       sorted_wrt (<) (map n_id (placeholders (graph st'))))
   \<and> graph (snd (create_graph_input ''z'' (projr (tracer_of ex_add)))) =
       [new_placeholder ''x'' (projr (tracer_of ex_unpack)),
        \<lparr>n_id = 1, n_op = ''placeholder'', n_target = TName ''y_1'', n_args = [], n_kwargs = []\<rparr>,
        new_placeholder ''z'' (projr (tracer_of ex_add))]
   \<and> graph (snd (create_graph_input ''z'' (projr (tracer_of ex_unpack)))) =
       [new_placeholder ''z'' (projr (tracer_of ex_unpack))]"
proof -
  let ?a = "projr (tracer_of ex_add)" and ?u = "projr (tracer_of ex_unpack)"
  let ?y = "\<lparr>n_id = 1, n_op = ''placeholder'', n_target = TName ''y_1'',
             n_args = [], n_kwargs = []\<rparr>"
  have e: "case final_tracer std_env 10 ex_add of
        None \<Rightarrow> False
      | Some st' \<Rightarrow> map n_target (placeholders (graph st')) = [TName ''x_0'', TName ''y_1'']"
    by code_simp
  then obtain st' where f: "final_tracer std_env 10 ex_add = Some st'"
    and t: "map n_target (placeholders (graph st')) = [TName ''x_0'', TName ''y_1'']"
    by (auto split: option.splits)
  from f obtain st0 where 1: "tracer_of ex_add = Inr st0"
    and 2: "run std_env 10 st0 = Some (Inr st')"
    by (auto simp: final_tracer_Some)
  have g: "filter (tensor_bound (f_locals ex_add)) (co_varnames (co_options (f_code ex_add)))
             = [''x'', ''y'']"
    by code_simp
  have h: "distinct (map n_id (graph ?a))"
    "graph ?a = [new_placeholder ''x'' ?u] @ ?y # []"
    "n_op ?y = ''placeholder''" "placeholders ([] :: node list) = []"
    "placeholders (graph ?u) = []" "graph ?u = []"
    by code_simp+
  note thm1 = captured_argument_order[OF 1 2, where st = ?a and pre = "[new_placeholder ''x'' ?u]"
      and x = ?y and post = "[]" and name = "''z''"]
  note thm2 = captured_argument_order[OF 1 2, where st = ?u and pre = "[]"
      and x = ?y and post = "[]" and name = "''z''"]
  from thm1
  have c1: "instructions st' = rewritten std_env st'"
    and c2: "list_all2 placeholder_for (graphargs st') (placeholders (graph st'))"
    and c3: "sorted_wrt (<) (map n_id (placeholders (graph st')))"
    and c4: "graphargs st' =
      map LocalArg (filter (tensor_bound (f_locals ex_add))
        (co_varnames (co_options (f_code ex_add))))"
    unfolding rewritten_def by blast+
  from c4 g have c5: "graphargs st' = [LocalArg ''x'', LocalArg ''y'']"
    by simp
  from c1 c5 have c6: "map argval (instructions st') =
         [CStr ''__translated_fn_0'', CStr ''x'', CStr ''y'', CInt 2, CNone]"
    by (simp add: rewritten_def load_instruction_def create_instruction_def std_env_def)
  note c2 c3 c5 c6
  moreover from thm1 h
  have "graph (snd (create_graph_input ''z'' ?a)) =
          [new_placeholder ''x'' ?u, ?y, new_placeholder ''z'' ?a]"
    by simp
  moreover from thm2 h
  have "graph (snd (create_graph_input ''z'' ?u)) = [new_placeholder ''z'' ?u]"
    by simp
  ultimately show ?thesis using f t by simp
qed

text \<open>
  C3. When \<^verbatim>\<open>convert_frame_assert\<close> traces a frame and succeeds, the guard set it
  returns is the guard set of the value on top of the stack at the one step onto
  \<^verbatim>\<open>RETURN_VALUE\<close> (the last step of the trace), united with the guard sets of the values
  on top of the stack at the steps onto \<^verbatim>\<open>POP_JUMP_IF_FALSE\<close>; nothing else is in it.
\<close>

theorem final_guard_set:
  assumes "traced fr" and "tracer_of fr = Inr st0"
    and "convert_frame_assert E fuel fr = Some (Inr r)"
  shows "gc_guards r =
           top_guards (last (stepped E fuel st0))
           \<union> \<Union> (top_guards ` set (stepped_onto ''POP_JUMP_IF_FALSE'' (stepped E fuel st0)))
         \<and> stepped_onto ''RETURN_VALUE'' (stepped E fuel st0) = [last (stepped E fuel st0)]"
proof -
  from convert_frame_assert_Inr[OF assms(1)[unfolded traced_def] assms(3)] assms(2)
  obtain st' where r: "run E fuel st0 = Some (Inr st')" and g: "gc_guards r = guards st'"
    by (auto simp: tracer_of_def)
  from assms(2) have "guards st0 = {}"
    using InstructionTracer_facts(3) by (simp add: tracer_of_def)
  with run_guards[OF r] stepped_return_last[OF r] g show ?thesis
    by simp
qed

theorem final_guard_set_witness:
  "case convert_frame_assert std_env 10 (ex_branch (PBool False)) of
     Some (Inr r) \<Rightarrow>
       gc_guards r =
         top_guards (last (steps_of std_env 10 (ex_branch (PBool False))))
         \<union> \<Union> (top_guards ` set (stepped_onto ''POP_JUMP_IF_FALSE''
                (steps_of std_env 10 (ex_branch (PBool False)))))
       \<and> gc_guards r = {Guard ''flag'' LOCAL VALUE_MATCH, Guard ''x'' LOCAL TYPE_MATCH}
   | _ \<Rightarrow> False"
proof -
  let ?fr = "ex_branch (PBool False)"
  have 1: "traced ?fr" by code_simp
  have "\<not> isl (tracer_of ?fr)" by code_simp
  then have 2: "tracer_of ?fr = Inr (projr (tracer_of ?fr))" by (rule tracer_of_projr)
  have "case convert_frame_assert std_env 10 ?fr of
          Some (Inr r) \<Rightarrow>
            gc_guards r = {Guard ''flag'' LOCAL VALUE_MATCH, Guard ''x'' LOCAL TYPE_MATCH}
        | _ \<Rightarrow> False"
    by code_simp
  from case_Some_Inr[OF this] obtain r where
    3: "convert_frame_assert std_env 10 ?fr = Some (Inr r)"
    and 4: "gc_guards r = {Guard ''flag'' LOCAL VALUE_MATCH, Guard ''x'' LOCAL TYPE_MATCH}"
    by blast
  from final_guard_set[OF 1 2 3] have
    "gc_guards r =
         top_guards (last (steps_of std_env 10 ?fr))
         \<union> \<Union> (top_guards ` set (stepped_onto ''POP_JUMP_IF_FALSE'' (steps_of std_env 10 ?fr)))"
    by (simp add: steps_of_Inr[OF 2])
  with 3 4 show ?thesis by simp
qed

text \<open>
  C4 (as amended). When the trace of a frame steps onto an instruction whose opcode has
  no handler, that step raises \<^verbatim>\<open>NotImplementedError("missing: <opname>")\<close>, the run and
  \<^verbatim>\<open>convert_frame_assert\<close> raise the same, and \<^verbatim>\<open>convert_frame\<close> returns the frame's
  own code with an empty guard set. An instruction without a handler that the trace
  never steps onto (one after the return, or on the branch not taken) does not abort
  the trace: the stream \<^verbatim>\<open>LOAD_FAST x; RETURN_VALUE; JUMP_ABSOLUTE\<close> is converted, with
  the guard on \<^verbatim>\<open>x\<close>.
\<close>

theorem missing_opcode_aborts:
  assumes "traced fr" and "debug_checks E (f_code fr) = Inr ()" and "tracer_of fr = Inr st0"
    and "s \<in> set (stepped E fuel st0)" and "\<not> has_handler (opname (current s))"
  shows "step E s = Inl (NotImplementedError (''missing: '' @ opname (current s)))
         \<and> run E fuel st0 = Some (Inl (NotImplementedError (''missing: '' @ opname (current s))))
         \<and> convert_frame_assert E fuel fr =
             Some (Inl (NotImplementedError (''missing: '' @ opname (current s))))
         \<and> convert_frame E fuel fr = Some (Inr (original fr))"
proof -
  from stepped_in_range[OF assms(4)] has_handler_None[OF assms(5)]
  have "step E s = Inl (NotImplementedError (''missing: '' @ opname (current s)))"
    by (simp add: step_def current_def unimplemented_def)
  with convert_frame_abort[OF assms(1-4) this] show ?thesis by simp
qed

theorem missing_opcode_aborts_witness:
  "convert_frame std_env 10 ex_missing = Some (Inr (original ex_missing)) \<and>
   convert_frame_assert std_env 10 ex_missing =
     Some (Inl (NotImplementedError ''missing: JUMP_ABSOLUTE''))"
proof -
  define st0 where "st0 = projr (tracer_of ex_missing)"
  define s where "s = stepped std_env 10 st0 ! 1"
  have 1: "traced ex_missing" by code_simp
  have 2: "debug_checks std_env (f_code ex_missing) = Inr ()" by (simp add: std_env_def)
  have "\<not> isl (tracer_of ex_missing)" by code_simp
  then have 3: "tracer_of ex_missing = Inr st0" unfolding st0_def by simp
  have "1 < length (stepped std_env 10 st0)" unfolding st0_def by code_simp
  then have 4: "s \<in> set (stepped std_env 10 st0)" unfolding s_def by (rule nth_mem)
  have 5: "opname (current s) = ''JUMP_ABSOLUTE''" unfolding s_def st0_def by code_simp
  have 6: "\<not> has_handler (opname (current s))"
    unfolding 5 by (simp add: has_handler_def handlers_def)
  from missing_opcode_aborts[OF 1 2 3 4 6] 5 show ?thesis by simp
qed

theorem unreached_opcode_counterexample:
  "map opname (co_instructions (f_code ex_unreached)) =
     [''LOAD_FAST'', ''RETURN_VALUE'', ''JUMP_ABSOLUTE'']
   \<and> has_handler ''JUMP_ABSOLUTE'' = False
   \<and> (case convert_frame std_env 10 ex_unreached of
        Some (Inr r) \<Rightarrow>
          map opname (co_instructions (gc_code r)) =
            [''LOAD_GLOBAL'', ''LOAD_FAST'', ''CALL_FUNCTION'', ''RETURN_VALUE'']
          \<and> gc_guards r = {Guard ''x'' LOCAL TYPE_MATCH}
      | _ \<Rightarrow> False)"
  by code_simp



text \<open>
  C6 (as amended). \<^verbatim>\<open>UNPACK_SEQUENCE\<close> on a container whose item count differs from the
  operand fails its assertion: the handler raises \<^verbatim>\<open>AssertionError\<close> (not the
  \<^verbatim>\<open>NotImplementedError\<close> of \<^verbatim>\<open>unimplemented\<close>), nothing is pushed, the run of a trace
  that steps onto it raises the same and \<^verbatim>\<open>convert_frame\<close> returns the frame's own code
  with no guard. When the counts match the items are pushed in reverse order, so that
  the first item ends on top of the stack. Any value that is not a container raises
  \<^verbatim>\<open>NotImplementedError\<close> naming its class.
\<close>

theorem unpack_sequence_arity:
  "(stack st = ListVariable cls items ts g # vs \<and> argval inst = CInt n \<and>
      int (length items) \<noteq> n \<longrightarrow>
        UNPACK_SEQUENCE E inst st = Inl AssertionError)
   \<and> (stack st = ListVariable cls items ts g # vs \<and> argval inst = CInt (int (length items)) \<longrightarrow>
        UNPACK_SEQUENCE E inst st = Inr (fold push (rev items) (st\<lparr>stack := vs\<rparr>)) \<and>
        stack (fold push (rev items) (st\<lparr>stack := vs\<rparr>)) = items @ vs)
   \<and> (stack st = v # vs \<and> (\<forall>cls items ts g. v \<noteq> ListVariable cls items ts g) \<longrightarrow>
        UNPACK_SEQUENCE E inst st = Inl (NotImplementedError (''UNPACK_SEQUENCE '' @ type_name v)))
   \<and> (traced fr \<and> debug_checks E (f_code fr) = Inr () \<and> tracer_of fr = Inr st0 \<and>
      s \<in> set (stepped E fuel st0) \<and> opname (current s) = ''UNPACK_SEQUENCE'' \<and>
      stack s = ListVariable cls items ts g # vs \<and> argval (current s) = CInt n \<and>
      int (length items) \<noteq> n \<longrightarrow>
        run E fuel st0 = Some (Inl AssertionError) \<and>
        convert_frame E fuel fr = Some (Inr (original fr)))"
proof (intro conjI impI; (elim conjE)?)
  assume "stack st = ListVariable cls items ts g # vs" "argval inst = CInt n"
    "int (length items) \<noteq> n"
  then show "UNPACK_SEQUENCE E inst st = Inl AssertionError"
    by (simp add: UNPACK_SEQUENCE_eq)
next
  assume a: "stack st = ListVariable cls items ts g # vs"
    "argval inst = CInt (int (length items))"
  then show "UNPACK_SEQUENCE E inst st = Inr (fold push (rev items) (st\<lparr>stack := vs\<rparr>))"
    by (simp add: UNPACK_SEQUENCE_eq fold_push_rev)
  show "stack (fold push (rev items) (st\<lparr>stack := vs\<rparr>)) = items @ vs"
    by (simp add: fold_push_rev)
next
  assume "stack st = v # vs" "\<forall>cls items ts g. v \<noteq> ListVariable cls items ts g"
  then show "UNPACK_SEQUENCE E inst st =
      Inl (NotImplementedError (''UNPACK_SEQUENCE '' @ type_name v))"
    by (cases v) (simp_all add: UNPACK_SEQUENCE_eq)
next
  assume a: "traced fr" "debug_checks E (f_code fr) = Inr ()" "tracer_of fr = Inr st0"
    "s \<in> set (stepped E fuel st0)"
    and b: "opname (current s) = ''UNPACK_SEQUENCE''"
    "stack s = ListVariable cls items ts g # vs" "argval (current s) = CInt n"
    "int (length items) \<noteq> n"
  from stepped_in_range[OF a(4)] b
  have "step E s = Inl AssertionError"
    by (simp add: step_handled[of _ UNPACK_SEQUENCE] handler_lookups UNPACK_SEQUENCE_eq)
  from convert_frame_abort[OF a this]
  show "run E fuel st0 = Some (Inl AssertionError)"
    "convert_frame E fuel fr = Some (Inr (original fr))"
    by simp_all
qed

theorem unpack_sequence_counterexample:
  "opname (current (steps_of std_env 10 ex_unpack ! 4)) = ''UNPACK_SEQUENCE'' \<and>
   argval (current (steps_of std_env 10 ex_unpack ! 4)) = CInt 2 \<and>
   stack (steps_of std_env 10 ex_unpack ! 4) =
     [ListVariable ''TupleVariable''
        [ConstantVariable (CInt 1) UNKNOWN {}, ConstantVariable (CInt 2) UNKNOWN {},
         ConstantVariable (CInt 3) UNKNOWN {}] UNKNOWN {}] \<and>
   (case step std_env (steps_of std_env 10 ex_unpack ! 4) of
      Inl e \<Rightarrow> e = AssertionError | Inr p \<Rightarrow> False) \<and>
   convert_frame_assert std_env 10 ex_unpack = Some (Inl AssertionError)"
  by code_simp

theorem unpack_sequence_arity_witness:
  "UNPACK_SEQUENCE std_env (current (steps_of std_env 10 ex_unpack ! 4))
     (steps_of std_env 10 ex_unpack ! 4) = Inl AssertionError
   \<and> stack (fold push
        (rev [ConstantVariable (CInt 1) UNKNOWN {}, ConstantVariable (CInt 2) UNKNOWN {}])
        ((steps_of std_env 4 ex_unpack2 ! 3)\<lparr>stack := []\<rparr>)) =
       [ConstantVariable (CInt 1) UNKNOWN {}, ConstantVariable (CInt 2) UNKNOWN {}]
   \<and> UNPACK_SEQUENCE std_env (current (steps_of std_env 4 ex_unpack2 ! 3))
        (steps_of std_env 4 ex_unpack2 ! 3) =
       Inr (fold push
        (rev [ConstantVariable (CInt 1) UNKNOWN {}, ConstantVariable (CInt 2) UNKNOWN {}])
        ((steps_of std_env 4 ex_unpack2 ! 3)\<lparr>stack := []\<rparr>))
   \<and> UNPACK_SEQUENCE std_env (current (steps_of std_env 4 ex_unpack2 ! 3))
        (steps_of std_env 4 ex_unpack2 ! 2) =
       Inl (NotImplementedError ''UNPACK_SEQUENCE ConstantVariable'')
   \<and> convert_frame std_env 10 ex_unpack = Some (Inr (original ex_unpack))"
proof -
  let ?s = "steps_of std_env 10 ex_unpack ! 4"
  let ?m = "steps_of std_env 4 ex_unpack2 ! 3"
  let ?n = "steps_of std_env 4 ex_unpack2 ! 2"
  let ?c1 = "ConstantVariable (CInt 1) UNKNOWN {}"
  let ?c2 = "ConstantVariable (CInt 2) UNKNOWN {}"
  let ?c3 = "ConstantVariable (CInt 3) UNKNOWN {}"
  have s: "stack ?s = ListVariable ''TupleVariable'' [?c1, ?c2, ?c3] UNKNOWN {} # []"
    "argval (current ?s) = CInt 2" "int (length [?c1, ?c2, ?c3]) \<noteq> 2"
    "opname (current ?s) = ''UNPACK_SEQUENCE''"
    by code_simp+
  have m: "stack ?m = ListVariable ''TupleVariable'' [?c1, ?c2] UNKNOWN {} # []"
    "argval (current ?m) = CInt (int (length [?c1, ?c2]))"
    by code_simp+
  have n: "stack ?n = ?c2 # [?c1]" by code_simp
  have n2: "\<forall>cls items ts g. ?c2 \<noteq> ListVariable cls items ts g" by simp
  define st0 where "st0 = projr (tracer_of ex_unpack)"
  have 1: "traced ex_unpack" by code_simp
  have 2: "debug_checks std_env (f_code ex_unpack) = Inr ()" by (simp add: std_env_def)
  have "\<not> isl (tracer_of ex_unpack)" by code_simp
  then have 3: "tracer_of ex_unpack = Inr st0" unfolding st0_def by simp
  have e: "steps_of std_env 10 ex_unpack = stepped std_env 10 st0"
    by (rule steps_of_Inr[OF 3])
  have "4 < length (steps_of std_env 10 ex_unpack)" by code_simp
  then have 4: "?s \<in> set (stepped std_env 10 st0)"
    unfolding e[symmetric] by (rule nth_mem)
  have a: "UNPACK_SEQUENCE std_env (current ?s) ?s = Inl AssertionError"
    using unpack_sequence_arity[where st = ?s and inst = "current ?s" and E = std_env
        and cls = "''TupleVariable''" and items = "[?c1, ?c2, ?c3]" and ts = UNKNOWN
        and g = "{}" and vs = "[]" and n = 2] s
    by blast
  have b: "UNPACK_SEQUENCE std_env (current ?m) ?m =
             Inr (fold push (rev [?c1, ?c2]) (?m\<lparr>stack := []\<rparr>)) \<and>
           stack (fold push (rev [?c1, ?c2]) (?m\<lparr>stack := []\<rparr>)) = [?c1, ?c2] @ []"
    using unpack_sequence_arity[where st = ?m and inst = "current ?m" and E = std_env
        and cls = "''TupleVariable''" and items = "[?c1, ?c2]" and ts = UNKNOWN
        and g = "{}" and vs = "[]"] m
    by blast
  have c: "UNPACK_SEQUENCE std_env (current ?m) ?n =
             Inl (NotImplementedError (''UNPACK_SEQUENCE '' @ type_name ?c2))"
    using unpack_sequence_arity[where st = ?n and inst = "current ?m" and E = std_env
        and v = ?c2 and vs = "[?c1]"] n n2
    by blast
  have d: "convert_frame std_env 10 ex_unpack = Some (Inr (original ex_unpack))"
    using unpack_sequence_arity[where fr = ex_unpack and E = std_env and fuel = 10
        and st0 = st0 and s = ?s and cls = "''TupleVariable''" and items = "[?c1, ?c2, ?c3]"
        and ts = UNKNOWN and g = "{}" and vs = "[]" and n = 2] 1 2 3 4 s
    by blast
  from a b c d show ?thesis by simp
qed

text \<open>
  C7 (as amended). When the trace of a frame steps onto \<^verbatim>\<open>LOAD_GLOBAL\<close> of a name bound
  to a tensor that is not on the allow-list, the step raises \<^verbatim>\<open>AssertionError\<close> (the
  \<^verbatim>\<open>assert False\<close> that stands before the capture of the global): the trace aborts, and
  \<^verbatim>\<open>convert_frame\<close> returns the frame's own code with an empty guard set.
\<close>

theorem load_global_tensor_aborts:
  assumes "traced fr" and "debug_checks E (f_code fr) = Inr ()" and "tracer_of fr = Inr st0"
    and "s \<in> set (stepped E fuel st0)" and "opname (current s) = ''LOAD_GLOBAL''"
    and "argval (current s) = CStr name" and "tr_f_globals s name = Some (PTensor t)"
    and "\<not> is_allowed E (PTensor t)"
  shows "step E s = Inl AssertionError
         \<and> run E fuel st0 = Some (Inl AssertionError)
         \<and> convert_frame_assert E fuel fr = Some (Inl AssertionError)
         \<and> convert_frame E fuel fr = Some (Inr (original fr))"
proof -
  from stepped_in_range[OF assms(4)] assms(5-8)
  have "step E s = Inl AssertionError"
    by (simp add: step_handled[of _ LOAD_GLOBAL] handler_lookups LOAD_GLOBAL_tensor)
  with convert_frame_abort[OF assms(1-4) this] show ?thesis by simp
qed

theorem load_global_tensor_aborts_witness:
  "convert_frame std_env 10 ex_global = Some (Inr (original ex_global)) \<and>
   convert_frame_assert std_env 10 ex_global = Some (Inl AssertionError)"
proof -
  define st0 where "st0 = projr (tracer_of ex_global)"
  define s where "s = stepped std_env 10 st0 ! 0"
  have 1: "traced ex_global" by code_simp
  have 2: "debug_checks std_env (f_code ex_global) = Inr ()" by (simp add: std_env_def)
  have "\<not> isl (tracer_of ex_global)" by code_simp
  then have 3: "tracer_of ex_global = Inr st0" unfolding st0_def by simp
  have "0 < length (stepped std_env 10 st0)" unfolding st0_def by code_simp
  then have 4: "s \<in> set (stepped std_env 10 st0)" unfolding s_def by (rule nth_mem)
  have 5: "opname (current s) = ''LOAD_GLOBAL''" unfolding s_def st0_def by code_simp
  have 6: "argval (current s) = CStr ''w''" unfolding s_def st0_def by code_simp
  have 7: "tr_f_globals s ''w'' = Some (PTensor 7)" unfolding s_def st0_def by code_simp
  have 8: "\<not> is_allowed std_env (PTensor 7)" by (simp add: std_env_def)
  from load_global_tensor_aborts[OF 1 2 3 4 5 6 7 8] show ?thesis by simp
qed

theorem load_global_tensor_counterexample:
  "opname (current (steps_of std_env 10 ex_global ! 0)) = ''LOAD_GLOBAL'' \<and>
   tr_f_globals (steps_of std_env 10 ex_global ! 0) ''w'' = Some (PTensor 7) \<and>
   (case step std_env (steps_of std_env 10 ex_global ! 0) of
      Inl e \<Rightarrow> e = AssertionError | Inr p \<Rightarrow> False) \<and>
   convert_frame_assert std_env 10 ex_global = Some (Inl AssertionError)"
  by code_simp

text \<open>
  C8 (as amended). After a successful trace the list of global names is the old one with
  the name of the compiled callable appended, the variable names and the file name are
  unchanged, and the stack-size hint is set to the number of captured arguments plus one
  (the number of names of \<^verbatim>\<open>co_varnames\<close> bound to a tensor, plus one), whatever it was.
\<close>

theorem rewritten_metadata:
  assumes "traced fr" and "convert_frame_assert E fuel fr = Some (Inr r)"
  shows "co_names (co_options (gc_code r)) =
           co_names (co_options (f_code fr)) @ [unique_id E ''__translated_fn'']
         \<and> co_varnames (co_options (gc_code r)) = co_varnames (co_options (f_code fr))
         \<and> co_stacksize (co_options (gc_code r)) =
             length (filter (tensor_bound (f_locals fr)) (co_varnames (co_options (f_code fr)))) + 1
         \<and> co_filename (gc_code r) = co_filename (f_code fr)"
proof -
  from convert_frame_assert_Inr[OF assms(1)[unfolded traced_def] assms(2)]
  obtain st0 st' where
    i: "InstructionTracer (co_instructions (f_code fr)) (f_locals fr) (f_globals fr)
             (f_builtins fr) (co_options (f_code fr)) = Inr st0"
    and r: "run E fuel st0 = Some (Inr st')"
    and c: "gc_code r = (f_code fr)\<lparr>co_instructions := instructions st',
                                      co_options := code_options st'\<rparr>"
    by auto
  from run_final[OF r] InstructionTracer_facts(4,7)[OF i] c show ?thesis
    by simp
qed

theorem rewritten_metadata_witness:
  "case convert_frame_assert std_env 10 ex_add of
     Some (Inr r) \<Rightarrow>
       co_names (co_options (gc_code r)) = [''__translated_fn_0''] \<and>
       co_varnames (co_options (gc_code r)) = [''x'', ''y''] \<and>
       co_stacksize (co_options (gc_code r)) = 3
   | _ \<Rightarrow> False"
proof -
  have 1: "traced ex_add" by code_simp
  have "case convert_frame_assert std_env 10 ex_add of Some (Inr r) \<Rightarrow> True | _ \<Rightarrow> False"
    by code_simp
  from case_Some_Inr[OF this] obtain r where
    2: "convert_frame_assert std_env 10 ex_add = Some (Inr r)"
    by blast
  have g: "filter (tensor_bound (f_locals ex_add)) (co_varnames (co_options (f_code ex_add)))
             = [''x'', ''y'']"
    by code_simp
  have n: "co_names (co_options (f_code ex_add)) = []"
    "co_varnames (co_options (f_code ex_add)) = [''x'', ''y'']"
    by code_simp+
  from rewritten_metadata[OF 1 2] g n 2 show ?thesis
    by (simp add: std_env_def)
qed

theorem stack_size_counterexample:
  "co_stacksize (co_options (f_code ex_add)) = 10 \<and>
   (case convert_frame_assert std_env 10 ex_add of
      Some (Inr r) \<Rightarrow> co_stacksize (co_options (gc_code r)) = 3
    | _ \<Rightarrow> False)"
  by code_simp

text \<open>
  C9. \<^verbatim>\<open>CALL_FUNCTION_KW\<close> with the empty tuple of keyword names on top of the stack
  and \<open>n\<close> arguments below it calls \<^verbatim>\<open>call_function\<close> with no positional and no
  keyword argument: \<^verbatim>\<open>args[:-0]\<close> is the empty list. For an allowed callable the node
  recorded in the graph has no argument.
\<close>

theorem call_function_kw_empty_names:
  "(stack st = ConstantVariable (CTuple []) ts g # rev args @ fn # rest \<and>
    argval inst = CInt (int (length args)) \<longrightarrow>
      CALL_FUNCTION_KW E inst st = call_function E fn [] [] (st\<lparr>stack := rest\<rparr>))
   \<and> (stack st = ConstantVariable (CTuple []) ts g # rev args @ fn # rest \<and>
    argval inst = CInt (int (length args)) \<and>
    fn = AllowedFunctionOrModuleVariable val ts' g' \<and> CALL_FUNCTION_KW E inst st = Inr st' \<longrightarrow>
      graph st' = graph st @
        [\<lparr>n_id = length (graph st), n_op = ''call_function'', n_target = TValue val,
          n_args = [], n_kwargs = []\<rparr>])"
proof (intro conjI impI; (elim conjE)?)
  assume a: "stack st = ConstantVariable (CTuple []) ts g # rev args @ fn # rest"
    "argval inst = CInt (int (length args))"
  then show "CALL_FUNCTION_KW E inst st = call_function E fn [] [] (st\<lparr>stack := rest\<rparr>)"
    by (rule CALL_FUNCTION_KW_empty_names)
next
  assume a: "stack st = ConstantVariable (CTuple []) ts g # rev args @ fn # rest"
    "argval inst = CInt (int (length args))"
    and f: "fn = AllowedFunctionOrModuleVariable val ts' g'"
    and r: "CALL_FUNCTION_KW E inst st = Inr st'"
  from CALL_FUNCTION_KW_empty_names[OF a, of E] r
  have "call_function E fn [] [] (st\<lparr>stack := rest\<rparr>) = Inr st'" by simp
  with f show "graph st' = graph st @
        [\<lparr>n_id = length (graph st), n_op = ''call_function'', n_target = TValue val,
          n_args = [], n_kwargs = []\<rparr>]"
    by (auto simp: call_function_def bindE_Inr as_proxies_kw_def create_proxy_def push_def
             split: if_splits)
qed

theorem call_function_kw_empty_names_witness:
  "CALL_FUNCTION_KW std_env (current (steps_of std_env 4 ex_kw ! 3))
     (steps_of std_env 4 ex_kw ! 3) =
   call_function std_env
     (AllowedFunctionOrModuleVariable
        (PObj ''builtin_function_or_method'' [(''__call__'', PObj ''method-wrapper'' [])])
        YES {Guard ''f'' GLOBAL FUNCTION_MATCH}) [] []
     ((steps_of std_env 4 ex_kw ! 3)\<lparr>stack := []\<rparr>)
   \<and> graph (projr (CALL_FUNCTION_KW std_env (current (steps_of std_env 4 ex_kw ! 3))
        (steps_of std_env 4 ex_kw ! 3))) =
     graph (steps_of std_env 4 ex_kw ! 3) @
       [\<lparr>n_id = length (graph (steps_of std_env 4 ex_kw ! 3)), n_op = ''call_function'',
         n_target = TValue
           (PObj ''builtin_function_or_method'' [(''__call__'', PObj ''method-wrapper'' [])]),
         n_args = [], n_kwargs = []\<rparr>]"
proof -
  let ?s = "steps_of std_env 4 ex_kw ! 3"
  let ?f = "PObj ''builtin_function_or_method'' [(''__call__'', PObj ''method-wrapper'' [])]"
  let ?fn = "AllowedFunctionOrModuleVariable ?f YES {Guard ''f'' GLOBAL FUNCTION_MATCH}"
  let ?x = "TensorVariable 0 YES {Guard ''x'' LOCAL TYPE_MATCH}"
  have s: "stack ?s = ConstantVariable (CTuple []) UNKNOWN {} # rev [?x] @ ?fn # []"
    "argval (current ?s) = CInt (int (length [?x]))"
    by code_simp+
  have "\<not> isl (CALL_FUNCTION_KW std_env (current ?s) ?s)" by code_simp
  then have r: "CALL_FUNCTION_KW std_env (current ?s) ?s =
                  Inr (projr (CALL_FUNCTION_KW std_env (current ?s) ?s))"
    by simp
  note t = call_function_kw_empty_names[where st = ?s and inst = "current ?s"
      and E = std_env and ts = UNKNOWN and g = "{}" and args = "[?x]" and fn = ?fn
      and rest = "[]" and val = ?f and ts' = YES and g' = "{Guard ''f'' GLOBAL FUNCTION_MATCH}"
      and st' = "projr (CALL_FUNCTION_KW std_env (current ?s) ?s)"]
  show ?thesis using t s r by blast
qed

text \<open>
  C10. When every jump target of the stream stands strictly later in the stream than
  its jump, the run of the tracer built for the frame ends: \<open>length + 1\<close> calls of \<^verbatim>\<open>step\<close> are enough
  (the last one may be the fetch past the end, which raises), more calls change nothing,
  at most \<open>length\<close> instructions are fetched, and every step that returns has moved
  the instruction pointer forward.
\<close>

theorem run_terminates_forward:
  assumes "tracer_of fr = Inr st0" and "forward_jumps (co_instructions (f_code fr))"
  shows "(\<exists>r. run E (Suc (length (co_instructions (f_code fr)))) st0 = Some r \<and>
              (\<forall>k. run E (Suc (length (co_instructions (f_code fr))) + k) st0 = Some r))
         \<and> length (stepped E fuel st0) \<le> length (co_instructions (f_code fr))
         \<and> (\<forall>s \<in> set (stepped E fuel st0). \<forall>s' c.
              step E s = Inr (s', c) \<longrightarrow> instruction_pointer s < instruction_pointer s')"
proof -
  define insts where "insts = co_instructions (f_code fr)"
  from InstructionTracer_facts(1,2)[OF assms(1)[unfolded tracer_of_def]]
  have i: "instructions st0 = insts" and p: "instruction_pointer st0 = 0"
    by (simp_all add: insts_def)
  with assms(2) have f: "forward_jumps (instructions st0)" by (simp add: insts_def)
  from run_terminates[OF f, of "Suc (length insts)" E] i p
  obtain r where r: "run E (Suc (length insts)) st0 = Some r" by auto
  have 1: "\<exists>r. run E (Suc (length insts)) st0 = Some r \<and>
              (\<forall>k. run E (Suc (length insts) + k) st0 = Some r)"
    using r run_mono[OF r] by blast
  have 2: "length (stepped E fuel st0) \<le> length insts"
    using stepped_bound[OF f, of E fuel] i p by simp
  have 3: "\<forall>s \<in> set (stepped E fuel st0). \<forall>s' c.
              step E s = Inr (s', c) \<longrightarrow> instruction_pointer s < instruction_pointer s'"
  proof (intro ballI allI impI)
    fix s s' c
    assume m: "s \<in> set (stepped E fuel st0)" and st: "step E s = Inr (s', c)"
    from stepped_instructions[OF m] f have "forward_jumps (instructions s)" by simp
    from step_increases[OF st this] show "instruction_pointer s < instruction_pointer s'" .
  qed
  from 1 2 3 show ?thesis unfolding insts_def by blast
qed

theorem run_terminates_forward_witness:
  "(\<exists>r. run std_env 7 (projr (tracer_of (ex_branch (PBool False)))) = Some r)
   \<and> length (steps_of std_env 4 (ex_branch (PBool False))) \<le> 6
   \<and> instruction_pointer (steps_of std_env 4 (ex_branch (PBool False)) ! 1)
       < instruction_pointer
           (fst (projr (step std_env (steps_of std_env 4 (ex_branch (PBool False)) ! 1))))"
proof -
  let ?fr = "ex_branch (PBool False)"
  let ?s = "steps_of std_env 4 ?fr ! 1"
  define st0 where "st0 = projr (tracer_of ?fr)"
  have "\<not> isl (tracer_of ?fr)" by code_simp
  then have 1: "tracer_of ?fr = Inr st0" unfolding st0_def by simp
  have 2: "forward_jumps (co_instructions (f_code ?fr))" by code_simp
  have l: "length (co_instructions (f_code ?fr)) = 6" by code_simp
  have e: "steps_of std_env 4 ?fr = stepped std_env 4 st0"
    by (rule steps_of_Inr[OF 1])
  have "1 < length (steps_of std_env 4 ?fr)" by code_simp
  then have 3: "?s \<in> set (stepped std_env 4 st0)"
    unfolding e[symmetric] by (rule nth_mem)
  have "\<not> isl (step std_env ?s)" by code_simp
  then have 4: "step std_env ?s = Inr (fst (projr (step std_env ?s)), snd (projr (step std_env ?s)))"
    by simp
  note t = run_terminates_forward[OF 1 2, where E = std_env and fuel = 4]
  from t have a: "\<exists>r. run std_env 7 st0 = Some r"
    unfolding l by (auto simp: eval_nat_numeral)
  from t have b: "length (steps_of std_env 4 ?fr) \<le> 6"
    unfolding l e by blast
  from t 3 4 have c: "instruction_pointer ?s < instruction_pointer (fst (projr (step std_env ?s)))"
    by blast
  from a b c show ?thesis unfolding st0_def by blast
qed

end
